theory Spec2Isabelle
  imports Main "HOL-Library.Word"
begin

chapter \<open>Sheepdog: operation table, epoch/recovery handlers and the VDI I/O engine\<close>

section \<open>Operation table (sheep/ops.c)\<close>

text \<open>
  \<^verbatim>\<open>enum sd_op_type\<close> starts at 1, so a zero-initialised table slot has no type.
  \<open>SD_OP_TYPE_UNSET\<close> stands for that value 0.
\<close>

datatype sd_op_type =
    SD_OP_TYPE_UNSET
  | SD_OP_TYPE_CLUSTER
  | SD_OP_TYPE_LOCAL
  | SD_OP_TYPE_PEER
  | SD_OP_TYPE_GATEWAY
  | SD_OP_TYPE_NONE

text \<open>
  \<^verbatim>\<open>struct sd_op_template\<close>. The two handlers are function pointers; the model keeps
  the name of the C function (\<open>None\<close> for a null pointer).
\<close>

record sd_op_template =
  name :: string
  type :: sd_op_type
  force :: bool
  is_admin_op :: bool
  process_work :: "string option"
  process_main :: "string option"

text \<open>
  The array \<^verbatim>\<open>sd_ops[]\<close>, one entry per designated initialiser, in the order of the
  source. The numeric values of the opcode macros are declared in a header, so a slot is
  keyed by the macro's name. Fields an initialiser leaves out are zero (\<open>False\<close>,
  \<open>None\<close>). The two NFS entries exist only when \<^verbatim>\<open>HAVE_NFS\<close> is defined.
\<close>

definition sd_ops :: "bool \<Rightarrow> (string \<times> sd_op_template) list" where
  "sd_ops HAVE_NFS =
     [(''SD_OP_GET_NID'',
      \<lparr>name = ''NULL'', type = SD_OP_TYPE_NONE, force = True, is_admin_op = False,
       process_work = Some ''null_get_nid'',
       process_main = None\<rparr>),
     (''SD_OP_NEW_VDI'',
      \<lparr>name = ''NEW_VDI'', type = SD_OP_TYPE_CLUSTER, force = False, is_admin_op = True,
       process_work = Some ''cluster_new_vdi'',
       process_main = Some ''post_cluster_new_vdi''\<rparr>),
     (''SD_OP_DEL_VDI'',
      \<lparr>name = ''DEL_VDI'', type = SD_OP_TYPE_CLUSTER, force = False, is_admin_op = True,
       process_work = Some ''cluster_del_vdi'',
       process_main = Some ''post_cluster_del_vdi''\<rparr>),
     (''SD_OP_MAKE_FS'',
      \<lparr>name = ''MAKE_FS'', type = SD_OP_TYPE_CLUSTER, force = True, is_admin_op = True,
       process_work = None,
       process_main = Some ''cluster_make_fs''\<rparr>),
     (''SD_OP_SHUTDOWN'',
      \<lparr>name = ''SHUTDOWN'', type = SD_OP_TYPE_CLUSTER, force = True, is_admin_op = True,
       process_work = None,
       process_main = Some ''cluster_shutdown''\<rparr>),
     (''SD_OP_GET_VDI_ATTR'',
      \<lparr>name = ''GET_VDI_ATTR'', type = SD_OP_TYPE_CLUSTER, force = False, is_admin_op = False,
       process_work = Some ''cluster_get_vdi_attr'',
       process_main = None\<rparr>),
     (''SD_OP_FORCE_RECOVER'',
      \<lparr>name = ''FORCE_RECOVER'', type = SD_OP_TYPE_CLUSTER, force = True, is_admin_op = True,
       process_work = Some ''cluster_force_recover_work'',
       process_main = Some ''cluster_force_recover_main''\<rparr>),
     (''SD_OP_NOTIFY_VDI_ADD'',
      \<lparr>name = ''NOTIFY_VDI_ADD'', type = SD_OP_TYPE_CLUSTER, force = True, is_admin_op = False,
       process_work = None,
       process_main = Some ''cluster_notify_vdi_add''\<rparr>),
     (''SD_OP_DELETE_CACHE'',
      \<lparr>name = ''DELETE_CACHE'', type = SD_OP_TYPE_CLUSTER, force = False, is_admin_op = False,
       process_work = None,
       process_main = Some ''cluster_delete_cache''\<rparr>),
     (''SD_OP_COMPLETE_RECOVERY'',
      \<lparr>name = ''COMPLETE_RECOVERY'', type = SD_OP_TYPE_CLUSTER, force = True, is_admin_op = False,
       process_work = None,
       process_main = Some ''cluster_recovery_completion''\<rparr>),
     (''SD_OP_GET_VDI_INFO'',
      \<lparr>name = ''GET_VDI_INFO'', type = SD_OP_TYPE_CLUSTER, force = False, is_admin_op = False,
       process_work = Some ''cluster_get_vdi_info'',
       process_main = None\<rparr>),
     (''SD_OP_LOCK_VDI'',
      \<lparr>name = ''LOCK_VDI'', type = SD_OP_TYPE_CLUSTER, force = False, is_admin_op = False,
       process_work = Some ''cluster_get_vdi_info'',
       process_main = None\<rparr>),
     (''SD_OP_RELEASE_VDI'',
      \<lparr>name = ''RELEASE_VDI'', type = SD_OP_TYPE_CLUSTER, force = False, is_admin_op = False,
       process_work = Some ''local_release_vdi'',
       process_main = None\<rparr>),
     (''SD_OP_REWEIGHT'',
      \<lparr>name = ''REWEIGHT'', type = SD_OP_TYPE_CLUSTER, force = False, is_admin_op = True,
       process_work = Some ''local_reconfig'',
       process_main = Some ''cluster_reconfig''\<rparr>),
     (''SD_OP_ALTER_CLUSTER_COPY'',
      \<lparr>name = ''ALTER_CLUSTER_COPY'', type = SD_OP_TYPE_CLUSTER, force = False, is_admin_op = True,
       process_work = None,
       process_main = Some ''cluster_alter_cluster_copy''\<rparr>),
     (''SD_OP_GET_STORE_LIST'',
      \<lparr>name = ''GET_STORE_LIST'', type = SD_OP_TYPE_LOCAL, force = True, is_admin_op = False,
       process_work = Some ''local_get_store_list'',
       process_main = None\<rparr>),
     (''SD_OP_READ_VDIS'',
      \<lparr>name = ''READ_VDIS'', type = SD_OP_TYPE_LOCAL, force = True, is_admin_op = False,
       process_work = None,
       process_main = Some ''local_read_vdis''\<rparr>),
     (''SD_OP_GET_NODE_LIST'',
      \<lparr>name = ''GET_NODE_LIST'', type = SD_OP_TYPE_LOCAL, force = True, is_admin_op = False,
       process_work = None,
       process_main = Some ''local_get_node_list''\<rparr>),
     (''SD_OP_STAT_SHEEP'',
      \<lparr>name = ''STAT_SHEEP'', type = SD_OP_TYPE_LOCAL, force = False, is_admin_op = False,
       process_work = Some ''local_stat_sheep'',
       process_main = None\<rparr>),
     (''SD_OP_STAT_RECOVERY'',
      \<lparr>name = ''STAT_RECOVERY'', type = SD_OP_TYPE_LOCAL, force = False, is_admin_op = False,
       process_work = None,
       process_main = Some ''local_stat_recovery''\<rparr>),
     (''SD_OP_STAT_CLUSTER'',
      \<lparr>name = ''STAT_CLUSTER'', type = SD_OP_TYPE_LOCAL, force = True, is_admin_op = False,
       process_work = Some ''local_stat_cluster'',
       process_main = None\<rparr>),
     (''SD_OP_GET_OBJ_LIST'',
      \<lparr>name = ''GET_OBJ_LIST'', type = SD_OP_TYPE_LOCAL, force = False, is_admin_op = False,
       process_work = Some ''local_get_obj_list'',
       process_main = None\<rparr>),
     (''SD_OP_GET_EPOCH'',
      \<lparr>name = ''GET_EPOCH'', type = SD_OP_TYPE_LOCAL, force = False, is_admin_op = False,
       process_work = Some ''local_get_epoch'',
       process_main = None\<rparr>),
     (''SD_OP_FLUSH_VDI'',
      \<lparr>name = ''FLUSH_VDI'', type = SD_OP_TYPE_LOCAL, force = False, is_admin_op = False,
       process_work = Some ''local_flush_vdi'',
       process_main = None\<rparr>),
     (''SD_OP_DISCARD_OBJ'',
      \<lparr>name = ''DISCARD_OBJ'', type = SD_OP_TYPE_LOCAL, force = False, is_admin_op = False,
       process_work = Some ''local_discard_obj'',
       process_main = None\<rparr>),
     (''SD_OP_FLUSH_DEL_CACHE'',
      \<lparr>name = ''DEL_CACHE'', type = SD_OP_TYPE_LOCAL, force = False, is_admin_op = False,
       process_work = Some ''local_flush_and_del'',
       process_main = None\<rparr>),
     (''SD_OP_TRACE_ENABLE'',
      \<lparr>name = ''TRACE_ENABLE'', type = SD_OP_TYPE_LOCAL, force = True, is_admin_op = False,
       process_work = None,
       process_main = Some ''local_trace_enable''\<rparr>),
     (''SD_OP_TRACE_DISABLE'',
      \<lparr>name = ''TRACE_DISABLE'', type = SD_OP_TYPE_LOCAL, force = True, is_admin_op = False,
       process_work = None,
       process_main = Some ''local_trace_disable''\<rparr>),
     (''SD_OP_TRACE_STATUS'',
      \<lparr>name = ''TRACE_STATUS'', type = SD_OP_TYPE_LOCAL, force = True, is_admin_op = False,
       process_work = None,
       process_main = Some ''local_trace_status''\<rparr>),
     (''SD_OP_TRACE_READ_BUF'',
      \<lparr>name = ''TRACE_READ_BUF'', type = SD_OP_TYPE_LOCAL, force = True, is_admin_op = False,
       process_work = Some ''local_trace_read_buf'',
       process_main = None\<rparr>),
     (''SD_OP_LIVEPATCH_PATCH'',
      \<lparr>name = ''LIVEPATCH_PATCH'', type = SD_OP_TYPE_CLUSTER, force = True, is_admin_op = False,
       process_work = None,
       process_main = Some ''local_livepatch_patch''\<rparr>),
     (''SD_OP_LIVEPATCH_UNPATCH'',
      \<lparr>name = ''LIVEPATCH_UNPATCH'', type = SD_OP_TYPE_CLUSTER, force = True, is_admin_op = False,
       process_work = None,
       process_main = Some ''local_livepatch_unpatch''\<rparr>),
     (''SD_OP_LIVEPATCH_STATUS'',
      \<lparr>name = ''LIVEPATCH_STATUS'', type = SD_OP_TYPE_LOCAL, force = True, is_admin_op = False,
       process_work = None,
       process_main = Some ''local_livepatch_status''\<rparr>),
     (''SD_OP_KILL_NODE'',
      \<lparr>name = ''KILL_NODE'', type = SD_OP_TYPE_LOCAL, force = True, is_admin_op = True,
       process_work = None,
       process_main = Some ''local_kill_node''\<rparr>),
     (''SD_OP_MD_INFO'',
      \<lparr>name = ''MD_INFO'', type = SD_OP_TYPE_LOCAL, force = False, is_admin_op = False,
       process_work = Some ''local_md_info'',
       process_main = None\<rparr>),
     (''SD_OP_MD_PLUG'',
      \<lparr>name = ''MD_PLUG_DISKS'', type = SD_OP_TYPE_LOCAL, force = False, is_admin_op = True,
       process_work = None,
       process_main = Some ''local_md_plug''\<rparr>),
     (''SD_OP_MD_UNPLUG'',
      \<lparr>name = ''MD_UNPLUG_DISKS'', type = SD_OP_TYPE_LOCAL, force = False, is_admin_op = True,
       process_work = None,
       process_main = Some ''local_md_unplug''\<rparr>),
     (''SD_OP_GET_HASH'',
      \<lparr>name = ''GET_HASH'', type = SD_OP_TYPE_LOCAL, force = False, is_admin_op = False,
       process_work = Some ''local_get_hash'',
       process_main = None\<rparr>),
     (''SD_OP_GET_CACHE_INFO'',
      \<lparr>name = ''GET_CACHE_INFO'', type = SD_OP_TYPE_LOCAL, force = False, is_admin_op = False,
       process_work = Some ''local_get_cache_info'',
       process_main = None\<rparr>),
     (''SD_OP_CACHE_PURGE'',
      \<lparr>name = ''CACHE_PURGE'', type = SD_OP_TYPE_LOCAL, force = False, is_admin_op = False,
       process_work = Some ''local_cache_purge'',
       process_main = None\<rparr>),
     (''SD_OP_STAT'',
      \<lparr>name = ''STAT'', type = SD_OP_TYPE_LOCAL, force = False, is_admin_op = False,
       process_work = None,
       process_main = Some ''local_sd_stat''\<rparr>),
     (''SD_OP_GET_LOGLEVEL'',
      \<lparr>name = ''GET_LOGLEVEL'', type = SD_OP_TYPE_LOCAL, force = True, is_admin_op = False,
       process_work = Some ''local_get_loglevel'',
       process_main = None\<rparr>),
     (''SD_OP_SET_LOGLEVEL'',
      \<lparr>name = ''SET_LOGLEVEL'', type = SD_OP_TYPE_LOCAL, force = True, is_admin_op = False,
       process_work = Some ''local_set_loglevel'',
       process_main = None\<rparr>),
     (''SD_OP_EXIST'',
      \<lparr>name = ''EXIST'', type = SD_OP_TYPE_LOCAL, force = True, is_admin_op = False,
       process_work = Some ''local_oid_exist'',
       process_main = None\<rparr>),
     (''SD_OP_OIDS_EXIST'',
      \<lparr>name = ''OIDS_EXIST'', type = SD_OP_TYPE_LOCAL, force = True, is_admin_op = False,
       process_work = None,
       process_main = Some ''local_oids_exist''\<rparr>),
     (''SD_OP_CLUSTER_INFO'',
      \<lparr>name = ''CLUSTER INFO'', type = SD_OP_TYPE_LOCAL, force = True, is_admin_op = False,
       process_work = None,
       process_main = Some ''local_cluster_info''\<rparr>)]
     @ (if HAVE_NFS then
     [(''SD_OP_NFS_CREATE'',
      \<lparr>name = ''NFS_CREATE'', type = SD_OP_TYPE_LOCAL, force = False, is_admin_op = False,
       process_work = Some ''local_nfs_create'',
       process_main = None\<rparr>),
     (''SD_OP_NFS_DELETE'',
      \<lparr>name = ''NFS_DELETE'', type = SD_OP_TYPE_LOCAL, force = False, is_admin_op = False,
       process_work = Some ''local_nfs_delete'',
       process_main = None\<rparr>)]
     else [])
     @ [(''SD_OP_REPAIR_REPLICA'',
      \<lparr>name = ''REPAIR_REPLICA'', type = SD_OP_TYPE_LOCAL, force = False, is_admin_op = False,
       process_work = Some ''local_repair_replica'',
       process_main = None\<rparr>),
     (''SD_OP_GET_CLUSTER_DEFAULT'',
      \<lparr>name = ''GET_CLUSTER_DEFAULT'', type = SD_OP_TYPE_LOCAL, force = True, is_admin_op = False,
       process_work = None,
       process_main = Some ''local_get_cluster_default''\<rparr>),
     (''SD_OP_CREATE_AND_WRITE_OBJ'',
      \<lparr>name = ''CREATE_AND_WRITE_OBJ'', type = SD_OP_TYPE_GATEWAY, force = False, is_admin_op = False,
       process_work = Some ''gateway_create_object'',
       process_main = None\<rparr>),
     (''SD_OP_READ_OBJ'',
      \<lparr>name = ''READ_OBJ'', type = SD_OP_TYPE_GATEWAY, force = False, is_admin_op = False,
       process_work = Some ''gateway_read_object'',
       process_main = None\<rparr>),
     (''SD_OP_WRITE_OBJ'',
      \<lparr>name = ''WRITE_OBJ'', type = SD_OP_TYPE_GATEWAY, force = False, is_admin_op = False,
       process_work = Some ''gateway_write_object'',
       process_main = None\<rparr>),
     (''SD_OP_REMOVE_OBJ'',
      \<lparr>name = ''REMOVE_OBJ'', type = SD_OP_TYPE_GATEWAY, force = False, is_admin_op = False,
       process_work = Some ''gateway_remove_object'',
       process_main = None\<rparr>),
     (''SD_OP_UNREF_OBJ'',
      \<lparr>name = ''UNREF_OBJ'', type = SD_OP_TYPE_GATEWAY, force = False, is_admin_op = False,
       process_work = Some ''gateway_unref_object'',
       process_main = None\<rparr>),
     (''SD_OP_CREATE_AND_WRITE_PEER'',
      \<lparr>name = ''CREATE_AND_WRITE_PEER'', type = SD_OP_TYPE_PEER, force = False, is_admin_op = False,
       process_work = Some ''peer_create_and_write_obj'',
       process_main = None\<rparr>),
     (''SD_OP_READ_PEER'',
      \<lparr>name = ''READ_PEER'', type = SD_OP_TYPE_PEER, force = False, is_admin_op = False,
       process_work = Some ''peer_read_obj'',
       process_main = None\<rparr>),
     (''SD_OP_WRITE_PEER'',
      \<lparr>name = ''WRITE_PEER'', type = SD_OP_TYPE_PEER, force = False, is_admin_op = False,
       process_work = Some ''peer_write_obj'',
       process_main = None\<rparr>),
     (''SD_OP_REMOVE_PEER'',
      \<lparr>name = ''REMOVE_PEER'', type = SD_OP_TYPE_PEER, force = False, is_admin_op = False,
       process_work = Some ''peer_remove_obj'',
       process_main = None\<rparr>)]"

text \<open>
  \<^verbatim>\<open>get_sd_op\<close>: a slot whose type is 0 (one no initialiser names) gives \<^verbatim>\<open>NULL\<close>.
\<close>

definition get_sd_op :: "bool \<Rightarrow> string \<Rightarrow> sd_op_template option" where
  "get_sd_op HAVE_NFS opcode =
     (case map_of (sd_ops HAVE_NFS) opcode of
        None \<Rightarrow> None
      | Some t \<Rightarrow> if type t = SD_OP_TYPE_UNSET then None else Some t)"

definition op_name :: "sd_op_template option \<Rightarrow> string" where
  "op_name op = (case op of None \<Rightarrow> ''(invalid opcode)'' | Some t \<Rightarrow> name t)"

definition is_cluster_op :: "sd_op_template option \<Rightarrow> bool" where
  "is_cluster_op op = (case op of None \<Rightarrow> False | Some t \<Rightarrow> type t = SD_OP_TYPE_CLUSTER)"

definition is_local_op :: "sd_op_template option \<Rightarrow> bool" where
  "is_local_op op = (case op of None \<Rightarrow> False | Some t \<Rightarrow> type t = SD_OP_TYPE_LOCAL)"

definition is_force_op :: "sd_op_template option \<Rightarrow> bool" where
  "is_force_op op = (case op of None \<Rightarrow> False | Some t \<Rightarrow> force t)"

definition is_logging_op :: "sd_op_template option \<Rightarrow> bool" where
  "is_logging_op op = (case op of None \<Rightarrow> False | Some t \<Rightarrow> is_admin_op t)"


section \<open>Cluster state and the epoch/recovery handlers (sheep/ops.c)\<close>

text \<open>
  The result codes and cluster states that ops.c names. Their numeric values are
  declared in a header; the model keeps them apart as an enumeration. A store driver
  may answer with a code ops.c does not name: \<open>SD_RES_OTHER\<close>.
\<close>

datatype sd_res =
    SD_RES_SUCCESS
  | SD_RES_UNKNOWN
  | SD_RES_NO_OBJ
  | SD_RES_EIO
  | SD_RES_NO_VDI
  | SD_RES_NO_TAG
  | SD_RES_INVALID_PARMS
  | SD_RES_SYSTEM_ERROR
  | SD_RES_READONLY
  | SD_RES_BUFFER_SMALL
  | SD_RES_FORCE_RECOVER
  | SD_RES_NO_STORE
  | SD_RES_NO_SUPPORT
  | SD_RES_WAIT_FOR_FORMAT
  | SD_RES_WAIT_FOR_JOIN
  | SD_RES_SHUTDOWN
  | SD_RES_AGAIN
  | SD_RES_OTHER nat

datatype sd_status =
    SD_STATUS_OK
  | SD_STATUS_WAIT
  | SD_STATUS_SHUTDOWN
  | SD_STATUS_KILLED

datatype node_status = NODE_STATUS_RUNNING | NODE_STATUS_RECOVER

text \<open>
  \<^verbatim>\<open>struct sd_node\<close>: the node identity \<open>nid\<close> (address and port), which is all that
  \<^verbatim>\<open>node_cmp\<close> compares, and the status the manual-recovery branch rewrites.
\<close>

record sd_node =
  nid :: nat
  nstatus :: node_status

text \<open>
  Modelled from the spec: \<^verbatim>\<open>node_cmp\<close> is declared outside ops.c. The spec calls it
  the node comparison that orders the tree of cluster nodes by node identity; it answers
  a negative number, 0 or a positive number.
\<close>

definition node_cmp :: "sd_node \<Rightarrow> sd_node \<Rightarrow> int" where
  "node_cmp a b = (if nid a < nid b then - 1 else if nid a = nid b then 0 else 1)"

text \<open>
  \<^verbatim>\<open>struct vnode_info\<close>: the membership view. \<open>nroot\<close> is the tree of nodes, kept as
  the list of its entries; \<open>nr_nodes\<close> and \<open>nr_zones\<close> are fields of their own in the
  C struct and are read as such.
\<close>

record vnode_info =
  nroot :: "sd_node list"
  nr_nodes :: nat
  nr_zones :: nat

text \<open>\<^verbatim>\<open>rb_search(&v->nroot, key, rb, node_cmp)\<close>: the entry that compares equal, if any.\<close>

definition rb_search :: "sd_node list \<Rightarrow> sd_node \<Rightarrow> sd_node option" where
  "rb_search root key = find (\<lambda>n. node_cmp key n = 0) root"

text \<open>
  Constants and configuration values that ops.c takes from headers and other modules;
  the handlers below receive them as a parameter: the macros \<^verbatim>\<open>SD_DEFAULT_COPIES\<close>,
  \<^verbatim>\<open>SD_CLUSTER_FLAG_MANUAL\<close> and \<^verbatim>\<open>SD_MAX_NODES\<close>, the size
  \<^verbatim>\<open>sizeof(struct sd_node)\<close>, and the value \<^verbatim>\<open>ec_max_data_strip()\<close> returns.
\<close>

record sd_consts =
  SD_DEFAULT_COPIES :: nat
  SD_CLUSTER_FLAG_MANUAL :: "16 word"
  SD_MAX_NODES :: nat
  SD_NODE_SIZE :: nat
  ec_max_data_strip :: nat

text \<open>
  A store driver. \<^verbatim>\<open>format()\<close> and \<^verbatim>\<open>init()\<close> act on the disk, outside this
  program; the model holds the result code each call gives. \<^verbatim>\<open>cleanup\<close> is an
  optional entry of the driver.
\<close>

record store_driver =
  drv_name :: string
  format_ret :: sd_res
  init_ret :: sd_res
  has_cleanup :: bool

text \<open>\<^verbatim>\<open>sys->cinfo\<close>, the fields ops.c reads and writes in the handlers below.\<close>

record cluster_info =
  epoch :: "32 word"
  status :: sd_status
  flags :: "16 word"
  nr_copies :: nat
  copy_policy :: nat
  ctime :: nat
  store :: string
  nodes :: "sd_node list"

text \<open>
  The global state the handlers share: \<^verbatim>\<open>sys\<close>, the selected driver
  \<^verbatim>\<open>sd_store\<close>, the current membership view (\<^verbatim>\<open>get_vnode_info()\<close>), the epoch
  log and configuration file on disk, and the three \<^verbatim>\<open>static\<close> variables of
  \<^verbatim>\<open>cluster_recovery_completion\<close>, which keep their values between calls
  (\<open>nr_recovereds\<close> is the length of \<open>recovereds\<close>). Two fields record calls into
  other modules: \<open>nr_cleanup\<close> counts the calls of \<^verbatim>\<open>sd_store->cleanup()\<close> and
  \<open>recoveries\<close> lists the calls of \<^verbatim>\<open>start_recovery\<close> (the current view and the
  node tree the old view is allocated from).
\<close>

record sys_state =
  cinfo :: cluster_info
  this_node :: sd_node
  vdi_inuse :: "nat set"
  store_drivers :: "store_driver list"
  sd_store :: "store_driver option"
  cur_vinfo :: vnode_info
  epoch_log :: "32 word list"
  config :: "cluster_info option"
  recovereds :: "sd_node list"
  latest_epoch :: "32 word"
  nr_cleanup :: nat
  recoveries :: "(vnode_info \<times> sd_node list) list"




text \<open>
  Modelled from the spec: \<^verbatim>\<open>set_cluster_config\<close> is declared outside ops.c; it writes
  the cluster configuration to the configuration file, and \<^verbatim>\<open>is_cluster_formatted\<close>
  tells whether one was written.
\<close>

definition set_cluster_config :: "cluster_info \<Rightarrow> sys_state \<Rightarrow> sys_state" where
  "set_cluster_config ci s = s\<lparr>config := Some ci\<rparr>"

definition is_cluster_formatted :: "sys_state \<Rightarrow> bool" where
  "is_cluster_formatted s = (config s \<noteq> None)"

text \<open>
  Modelled from the spec: \<^verbatim>\<open>inc_and_log_epoch\<close> is declared outside ops.c. The spec
  has the epoch advance by exactly 1 and be persisted. Whether the write of the epoch
  log succeeds is decided by the disk: the argument \<open>log_ok\<close>. The result is 0 on
  success and not 0 on failure, modelled as a truth value; the counter is a
  \<^verbatim>\<open>uint32_t\<close> and wraps.
\<close>

definition inc_and_log_epoch :: "bool \<Rightarrow> sys_state \<Rightarrow> bool \<times> sys_state" where
  "inc_and_log_epoch log_ok s =
     (let s1 = s\<lparr>cinfo := (cinfo s)\<lparr>epoch := epoch (cinfo s) + 1\<rparr>\<rparr>
      in if log_ok then (True, s1\<lparr>epoch_log := epoch_log s1 @ [epoch (cinfo s1)]\<rparr>)
         else (False, s1))"




text \<open>
  \<^verbatim>\<open>struct request\<close>, the fields the work phase of FORCE_RECOVER touches:
  \<^verbatim>\<open>req->vinfo\<close> (null when the node has no view), \<^verbatim>\<open>req->rq.data_length\<close>,
  \<^verbatim>\<open>req->rp.epoch\<close>, \<^verbatim>\<open>req->rp.data_length\<close> and the node buffer \<^verbatim>\<open>req->data\<close>.
\<close>

record request =
  vinfo :: "vnode_info option"
  rq_data_length :: nat
  rp_epoch :: "32 word"
  rp_data_length :: nat
  data :: "sd_node list"

text \<open>
  \<^verbatim>\<open>cluster_force_recover_work\<close>. \<^verbatim>\<open>get_vnode_info_epoch\<close> reads the view of an
  epoch from the epoch log (declared outside ops.c); it is the parameter \<open>gvie\<close> and
  answers \<open>None\<close> for the null pointer.
\<close>

definition cluster_force_recover_work ::
  "sd_consts \<Rightarrow> (32 word \<Rightarrow> vnode_info \<Rightarrow> vnode_info option) \<Rightarrow> request \<Rightarrow> sys_state
     \<Rightarrow> sd_res \<times> request" where
  "cluster_force_recover_work k gvie req s =
     (let ep = epoch (cinfo s)
      in case vinfo req of
           None \<Rightarrow> (SD_RES_FORCE_RECOVER, req)
         | Some v \<Rightarrow>
             if status (cinfo s) \<noteq> SD_STATUS_WAIT then (SD_RES_FORCE_RECOVER, req)
             else
               (case gvie ep v of
                  None \<Rightarrow> (SD_RES_FORCE_RECOVER, req)
                | Some old_vnode_info \<Rightarrow>
                    if rq_data_length req < SD_NODE_SIZE k * nr_nodes old_vnode_info
                    then (SD_RES_INVALID_PARMS, req)
                    else (SD_RES_SUCCESS,
                          req\<lparr>rp_epoch := ep,
                              rp_data_length := SD_NODE_SIZE k * nr_nodes old_vnode_info,
                              data := nroot old_vnode_info\<rparr>)))"

text \<open>
  \<^verbatim>\<open>rb_insert\<close> keeps one entry per key: a node that compares equal to an entry of
  the tree is not inserted again.
\<close>

definition rb_insert :: "sd_node \<Rightarrow> sd_node list \<Rightarrow> sd_node list" where
  "rb_insert n root = (if rb_search root n \<noteq> None then root else insort_key nid n root)"

text \<open>
  \<^verbatim>\<open>cluster_force_recover_main\<close>. \<^verbatim>\<open>panic\<close> ends the process: the result \<open>Inl Panic\<close>.
  \<open>rsp_epoch\<close> and \<open>rsp_data_length\<close> are the fields of the response the work phase
  filled in, \<open>buf\<close> the node buffer (\<^verbatim>\<open>data\<close>).
\<close>

datatype fatal = Panic

definition cluster_force_recover_main ::
  "sd_consts \<Rightarrow> bool \<Rightarrow> 32 word \<Rightarrow> nat \<Rightarrow> sd_node list \<Rightarrow> sys_state
     \<Rightarrow> fatal + sd_res \<times> sys_state" where
  "cluster_force_recover_main k log_ok rsp_epoch rsp_data_length buf s =
     (let nr = rsp_data_length div SD_NODE_SIZE k
      in if rsp_epoch \<noteq> epoch (cinfo s) then Inr (SD_RES_FORCE_RECOVER, s)
         else
           (case inc_and_log_epoch log_ok s of
              (False, s1) \<Rightarrow> Inl Panic
            | (True, s1) \<Rightarrow>
                let s2 = (if \<not> is_cluster_formatted s1 then set_cluster_config (cinfo s1) s1
                          else s1);
                    s3 = s2\<lparr>cinfo := (cinfo s2)\<lparr>status := SD_STATUS_OK\<rparr>\<rparr>;
                    root = fold rb_insert (take nr buf) []
                in Inr (SD_RES_SUCCESS,
                        s3\<lparr>recoveries := recoveries s3 @ [(cur_vinfo s3, root)]\<rparr>)))"







subsection \<open>Notions used to state the properties of the recovery-completion handler\<close>





subsection \<open>A two-node cluster, for evaluation\<close>

definition ex_consts :: sd_consts where
  "ex_consts = \<lparr>SD_DEFAULT_COPIES = 3, SD_CLUSTER_FLAG_MANUAL = 4, SD_MAX_NODES = 8,
     SD_NODE_SIZE = 128, ec_max_data_strip = 2\<rparr>"

definition node_a :: sd_node where
  "node_a = \<lparr>nid = 1, nstatus = NODE_STATUS_RUNNING\<rparr>"

definition node_b :: sd_node where
  "node_b = \<lparr>nid = 2, nstatus = NODE_STATUS_RUNNING\<rparr>"

definition ex_view :: vnode_info where
  "ex_view = \<lparr>nroot = [node_a, node_b], nr_nodes = 2, nr_zones = 2\<rparr>"

definition ex_driver :: store_driver where
  "ex_driver = \<lparr>drv_name = ''plain'', format_ret = SD_RES_SUCCESS,
     init_ret = SD_RES_SUCCESS, has_cleanup = True\<rparr>"

definition ex_sys :: sys_state where
  "ex_sys = \<lparr>cinfo = \<lparr>epoch = 5, status = SD_STATUS_WAIT, flags = 0, nr_copies = 3,
                copy_policy = 0, ctime = 0, store = ''plain'', nodes = [node_a, node_b]\<rparr>,
     this_node = node_a, vdi_inuse = {}, store_drivers = [ex_driver],
     sd_store = Some ex_driver, cur_vinfo = ex_view, epoch_log = [1, 2, 3, 4, 5],
     config = None, recovereds = [], latest_epoch = 0, nr_cleanup = 0, recoveries = []\<rparr>"



section \<open>The VDI I/O engine (lib: vdi_rw_request, vdi_create_respond)\<close>

subsection \<open>Object ids, sub-requests and the shared state\<close>

text \<open>
  Modelled from the spec: \<^verbatim>\<open>vid_to_data_oid\<close>, \<^verbatim>\<open>vid_to_vdi_oid\<close> and
  \<^verbatim>\<open>data_oid_to_idx\<close> are macros of a header. The spec describes an object id as
  combining a vid with a data-object index, or naming the inode object of a vid. The
  two kinds are kept apart as constructors; \<open>data_oid_to_idx\<close> is the index of a data
  object id. The value 0 of a \<^verbatim>\<open>cow_oid\<close> field (no copy-on-write source) is \<open>None\<close>.
\<close>

datatype oid =
    DataOid (oid_vid: "32 word") (data_oid_to_idx: "32 word")
  | VdiOid (oid_vid: "32 word")

definition vid_to_data_oid :: "32 word \<Rightarrow> 32 word \<Rightarrow> oid" where
  "vid_to_data_oid vid idx = DataOid vid idx"

definition vid_to_vdi_oid :: "32 word \<Rightarrow> oid" where
  "vid_to_vdi_oid vid = VdiOid vid"

datatype vdi_opcode = VDI_READ | VDI_WRITE | VDI_CREATE

text \<open>
  \<^verbatim>\<open>struct sheep_aiocb\<close> with the fields of its \<^verbatim>\<open>request\<close> that the engine reads:
  \<open>aio_opcode\<close> is \<^verbatim>\<open>aiocb->request->opcode\<close> and \<open>aio_vid\<close> is
  \<^verbatim>\<open>aiocb->request->vdi->vid\<close>. Offset and length are \<^verbatim>\<open>uint64_t\<close>. The counter
  \<^verbatim>\<open>nr_requests\<close> changes and lives in the state, under \<open>aio_id\<close>.
\<close>

record sheep_aiocb =
  aio_id :: nat
  aio_offset :: nat
  aio_length :: nat
  aio_opcode :: vdi_opcode
  aio_vid :: "32 word"

text \<open>\<^verbatim>\<open>struct sheep_request\<close>, one sub-request (\<open>rlength\<close> is the field \<^verbatim>\<open>length\<close>).\<close>

record sheep_request =
  aiocb :: sheep_aiocb
  oid :: oid
  cow_oid :: "oid option"
  offset :: nat
  rlength :: nat
  seq_num :: nat
  opcode :: vdi_opcode

datatype lock = blocking_lock | vdi_lock "32 word"

text \<open>
  What the engine does to the world outside its own state, in the order it does it:
  a sub-request is allocated, an operation is handed to the object store, a sub-request
  is ended, the completion callback \<^verbatim>\<open>aio_done_func\<close> of an aiocb is called, a lock is
  taken for writing or released, a sub-request is appended to the blocking list, an
  entry of an inode's index map is written (vdi, index, value).
\<close>

datatype event =
    Alloc sheep_request
  | Submit sheep_request
  | End sheep_request
  | Done nat
  | WLock lock
  | Unlock lock
  | Enqueue sheep_request
  | InodeSet "32 word" "32 word" "32 word"

text \<open>
  The state the two functions share: the index map \<^verbatim>\<open>vdi->inode->data_vdi_id\<close> of
  every open VDI (by its vid), the counter \<^verbatim>\<open>nr_requests\<close> of every aiocb,
  \<^verbatim>\<open>c->seq_num\<close>, the requests in flight, \<^verbatim>\<open>c->blocking_list\<close>, and the events so
  far.
\<close>

record cluster =
  data_vdi_id :: "32 word \<Rightarrow> 32 word \<Rightarrow> 32 word"
  nr_requests :: "nat \<Rightarrow> int"
  c_seq_num :: nat
  inflight_list :: "sheep_request list"
  blocking_list :: "sheep_request list"
  trace :: "event list"

definition emit :: "event list \<Rightarrow> cluster \<Rightarrow> cluster" where
  "emit es c = c\<lparr>trace := trace c @ es\<rparr>"

subsection \<open>Helpers of the library that the two functions call\<close>

text \<open>
  Modelled from the spec: \<^verbatim>\<open>sheep_inode_get_vid\<close> is defined outside the source at
  hand. The spec: look up the vid at the index in the inode map.
\<close>

definition sheep_inode_get_vid :: "sheep_aiocb \<Rightarrow> 32 word \<Rightarrow> cluster \<Rightarrow> 32 word" where
  "sheep_inode_get_vid a idx c = data_vdi_id c (aio_vid a) idx"

text \<open>
  Modelled from the spec: \<^verbatim>\<open>alloc_sheep_request\<close> is defined outside the source at
  hand. The spec: a sub-request is allocated by the splitting loop with target oid,
  optional copy-on-write source, length and offset within the object and the opcode of
  the logical request, and the aiocb's counter counts the live sub-requests. The fields
  are set as \<^verbatim>\<open>vdi_create_respond\<close> sets them by hand for the request it builds
  itself, counter and sequence number included.
\<close>

definition alloc_sheep_request ::
  "sheep_aiocb \<Rightarrow> oid \<Rightarrow> oid option \<Rightarrow> nat \<Rightarrow> nat \<Rightarrow> cluster \<Rightarrow> sheep_request \<times> cluster" where
  "alloc_sheep_request a obj cow len start c =
     (let req = \<lparr>aiocb = a, oid = obj, cow_oid = cow, offset = start, rlength = len,
                 seq_num = c_seq_num c + 1, opcode = aio_opcode a\<rparr>
      in (req,
          emit [Alloc req]
            (c\<lparr>c_seq_num := c_seq_num c + 1,
               nr_requests := (nr_requests c)(aio_id a := nr_requests c (aio_id a) + 1)\<rparr>)))"

text \<open>
  Modelled from the spec: \<^verbatim>\<open>end_sheep_request\<close> is defined outside the source at
  hand. The spec: the completion callback fires once the sub-request counter reaches
  zero. The test is the one \<^verbatim>\<open>vdi_rw_request\<close> makes when it drops its own reference.
\<close>

definition end_sheep_request :: "sheep_request \<Rightarrow> cluster \<Rightarrow> cluster" where
  "end_sheep_request req c =
     (let a = aio_id (aiocb req);
          n = nr_requests c a - 1;
          c1 = emit [End req] (c\<lparr>nr_requests := (nr_requests c)(a := n)\<rparr>)
      in if n \<le> 0 then emit [Done a] c1 else c1)"

text \<open>
  Modelled from the spec: \<^verbatim>\<open>submit_sheep_request\<close> is defined outside the source at
  hand. The spec: the sub-request is submitted to the store adapter; it is in flight
  until its completion is handled.
\<close>

definition submit_sheep_request :: "sheep_request \<Rightarrow> cluster \<Rightarrow> cluster" where
  "submit_sheep_request req c =
     emit [Submit req] (c\<lparr>inflight_list := inflight_list c @ [req]\<rparr>)"

text \<open>
  Modelled from the spec: \<^verbatim>\<open>find_inflight_request_oid\<close> is defined outside the source
  at hand. The spec: the inflight-create index, the object ids that are being created.
\<close>

definition find_inflight_request_oid :: "cluster \<Rightarrow> oid \<Rightarrow> bool" where
  "find_inflight_request_oid c obj =
     list_ex (\<lambda>r. oid r = obj \<and> opcode r = VDI_CREATE) (inflight_list c)"

text \<open>
  Modelled from the spec: \<^verbatim>\<open>submit_blocking_sheep_request\<close> is defined outside the
  source at hand. The spec: dequeue and resubmit every blocking sub-request waiting on
  that oid, in FIFO order.
\<close>

definition submit_blocking_sheep_request :: "oid \<Rightarrow> cluster \<Rightarrow> cluster" where
  "submit_blocking_sheep_request obj c =
     fold submit_sheep_request (filter (\<lambda>r. oid r = obj) (blocking_list c))
       (c\<lparr>blocking_list := filter (\<lambda>r. oid r \<noteq> obj) (blocking_list c)\<rparr>)"

subsection \<open>vdi_rw_request\<close>

text \<open>
  The body of the \<^verbatim>\<open>do ... while\<close> loop, from the declaration of \<^verbatim>\<open>req\<close> to the
  label \<^verbatim>\<open>done\<close>. The \<^verbatim>\<open>switch\<close> has cases for WRITE and READ only; any other opcode
  leaves it and reaches \<^verbatim>\<open>submit\<close>.
\<close>

definition vdi_rw_body :: "sheep_aiocb \<Rightarrow> 32 word \<Rightarrow> nat \<Rightarrow> nat \<Rightarrow> cluster \<Rightarrow> cluster" where
  "vdi_rw_body a idx len start c =
     (let own = aio_vid a;
          vid = sheep_inode_get_vid a idx c;
          other = (vid \<noteq> 0 \<and> vid \<noteq> own);
          obj = (if other \<and> aio_opcode a \<noteq> VDI_WRITE then vid_to_data_oid vid idx
                 else vid_to_data_oid own idx);
          cow = (if other \<and> aio_opcode a = VDI_WRITE then Some (vid_to_data_oid vid idx)
                 else None);
          (req, c1) = alloc_sheep_request a obj cow len start c
      in if vid \<noteq> 0 \<and> cow = None then submit_sheep_request req c1
         else
           (case opcode req of
              VDI_WRITE \<Rightarrow>
                if find_inflight_request_oid c1 obj then
                  let c2 = emit [WLock blocking_lock] c1;
                      tmp_vid = sheep_inode_get_vid a idx c2
                  in if tmp_vid \<noteq> 0 \<and> tmp_vid = own
                     then submit_sheep_request req (emit [Unlock blocking_lock] c2)
                     else emit [Enqueue req, Unlock blocking_lock]
                            (c2\<lparr>blocking_list := blocking_list c2 @ [req]\<rparr>)
                else submit_sheep_request (req\<lparr>opcode := VDI_CREATE\<rparr>) c1
            | VDI_READ \<Rightarrow> end_sheep_request req c1
            | VDI_CREATE \<Rightarrow> submit_sheep_request req c1))"

text \<open>
  \<^verbatim>\<open>total -= len\<close> on a \<^verbatim>\<open>uint64_t\<close>: the difference wraps when \<open>len\<close> exceeds
  \<open>tot\<close>.
\<close>

definition sub_u64 :: "nat \<Rightarrow> nat \<Rightarrow> nat" where
  "sub_u64 tot len = (if len \<le> tot then tot - len else tot + 2 ^ 64 - len)"

text \<open>
  The loop. \<open>S\<close> is \<^verbatim>\<open>SD_DATA_OBJ_SIZE\<close>, a macro of a header. \<open>tot\<close> is the
  variable \<^verbatim>\<open>total\<close>. \<open>idx\<close> is a \<^verbatim>\<open>uint32_t\<close> and wraps. \<open>start\<close> and \<open>len\<close>
  are \<^verbatim>\<open>int\<close>s whose values stay between 0 and \<open>S\<close>. The body runs before the
  test, and nothing in the loop bounds the number of rounds: the result is \<open>None\<close>
  when the loop does not end.
\<close>

partial_function (option) vdi_rw_loop ::
  "nat \<Rightarrow> sheep_aiocb \<Rightarrow> 32 word \<Rightarrow> nat \<Rightarrow> nat \<Rightarrow> nat \<Rightarrow> cluster \<Rightarrow> cluster option" where
  "vdi_rw_loop S a idx tot start len c =
     (let c' = vdi_rw_body a idx len start c;
          tot' = sub_u64 tot len
      in if 0 < tot'
         then vdi_rw_loop S a (idx + 1) tot' ((start + len) mod S)
                (if S < tot' then S else tot') c'
         else Some c')"

declare vdi_rw_loop.simps [code]

text \<open>
  \<^verbatim>\<open>vdi_rw_request\<close>: the first index, offset and length, the extra reference on the
  counter, the loop, and the release of the reference with the call of the completion
  callback when the counter is then 0 or less.
\<close>

definition vdi_rw_request :: "nat \<Rightarrow> sheep_aiocb \<Rightarrow> cluster \<Rightarrow> cluster option" where
  "vdi_rw_request S a c =
     (let off = aio_offset a;
          tot = aio_length a;
          start = off mod S;
          idx = word_of_nat (off div S);
          len = (if tot < S - start then tot else S - start);
          c1 = c\<lparr>nr_requests := (nr_requests c)(aio_id a := nr_requests c (aio_id a) + 1)\<rparr>
      in case vdi_rw_loop S a idx tot start len c1 of
           None \<Rightarrow> None
         | Some c2 \<Rightarrow>
             let n = nr_requests c2 (aio_id a) - 1;
                 c3 = c2\<lparr>nr_requests := (nr_requests c2)(aio_id a := n)\<rparr>
             in Some (if n \<le> 0 then emit [Done (aio_id a)] c3 else c3))"

subsection \<open>vdi_create_respond and the completion of sub-requests\<close>

text \<open>
  \<^verbatim>\<open>vdi_create_respond\<close>. \<open>H\<close> is \<^verbatim>\<open>SD_INODE_HEADER_SIZE\<close>, a macro of a header;
  \<^verbatim>\<open>sizeof(vid)\<close> is 4, \<open>vid\<close> being a \<^verbatim>\<open>uint32_t\<close>.
\<close>

definition vdi_create_respond :: "nat \<Rightarrow> sheep_request \<Rightarrow> cluster \<Rightarrow> cluster" where
  "vdi_create_respond H req c =
     (let a = aiocb req;
          vid = aio_vid a;
          idx = data_oid_to_idx (oid req);
          new = \<lparr>aiocb = a, oid = vid_to_vdi_oid vid, cow_oid = None,
                 offset = H + 4 * unat idx, rlength = 4,
                 seq_num = c_seq_num c + 1, opcode = VDI_WRITE\<rparr>;
          c1 = c\<lparr>c_seq_num := c_seq_num c + 1,
                 nr_requests := (nr_requests c)(aio_id a := nr_requests c (aio_id a) + 1)\<rparr>;
          c2 = emit [WLock (vdi_lock vid)] c1;
          c3 = emit [InodeSet vid idx vid]
                 (c2\<lparr>data_vdi_id := (data_vdi_id c2)(vid := (data_vdi_id c2 vid)(idx := vid))\<rparr>);
          c4 = emit [Unlock (vdi_lock vid)] c3;
          c5 = submit_sheep_request new c4;
          c6 = submit_blocking_sheep_request (oid req) c5
      in end_sheep_request req c6)"

text \<open>
  The table \<^verbatim>\<open>sd_ops\<close> of the library: \<^verbatim>\<open>respond_process\<close> is
  \<^verbatim>\<open>end_sheep_request\<close> for READ and WRITE and \<^verbatim>\<open>vdi_create_respond\<close> for CREATE.
\<close>

definition respond_process :: "nat \<Rightarrow> sheep_request \<Rightarrow> cluster \<Rightarrow> cluster" where
  "respond_process H req c =
     (case opcode req of
        VDI_READ \<Rightarrow> end_sheep_request req c
      | VDI_WRITE \<Rightarrow> end_sheep_request req c
      | VDI_CREATE \<Rightarrow> vdi_create_respond H req c)"

text \<open>
  Modelled from the spec: the handler of the store's replies is defined outside the
  source at hand. The spec: a sub-request completes once; on completion it leaves the
  requests in flight and its completion is processed. A schedule of replies names, one
  after the other, the position in the list of requests in flight of the request whose
  reply arrives next (a position past the end names none).
\<close>

definition handle_reply :: "nat \<Rightarrow> sheep_request \<Rightarrow> cluster \<Rightarrow> cluster" where
  "handle_reply H req c =
     respond_process H req (c\<lparr>inflight_list := remove1 req (inflight_list c)\<rparr>)"

fun handle_replies :: "nat \<Rightarrow> nat list \<Rightarrow> cluster \<Rightarrow> cluster" where
  "handle_replies H [] c = c"
| "handle_replies H (j # js) c =
     handle_replies H js
       (if j < length (inflight_list c) then handle_reply H (inflight_list c ! j) c else c)"


subsection \<open>Notions used to state the properties of the engine\<close>

text \<open>
  The rounds of the splitting loop as a list (index, length, offset within the object),
  for a loop that is entered with \<open>len\<close> positive and at most \<open>tot\<close>, or with both 0.
\<close>

function rw_chunks :: "nat \<Rightarrow> 32 word \<Rightarrow> nat \<Rightarrow> nat \<Rightarrow> nat \<Rightarrow> (32 word \<times> nat \<times> nat) list" where
  "rw_chunks S idx tot start len =
     (idx, len, start) #
       (if 0 < len \<and> len < tot
        then rw_chunks S (idx + 1) (tot - len) ((start + len) mod S)
               (if S < tot - len then S else tot - len)
        else [])"
  by pat_completeness auto
termination
  by (relation "measure (\<lambda>(S, idx, tot, start, len). tot)") auto

text \<open>The rounds of \<open>vdi_rw_request\<close> for a request at \<open>off\<close> of \<open>n\<close> bytes.\<close>

definition request_chunks :: "nat \<Rightarrow> nat \<Rightarrow> nat \<Rightarrow> (32 word \<times> nat \<times> nat) list" where
  "request_chunks S off n =
     rw_chunks S (word_of_nat (off div S)) n (off mod S)
       (if n < S - off mod S then n else S - off mod S)"

text \<open>
  What the rounds of a request at byte \<open>pos\<close> with \<open>tot\<close> bytes left have to be. There
  is a first round. It addresses the object that holds byte \<open>pos\<close>, at the offset of
  \<open>pos\<close> within it, and takes the smaller of what is left and what the object holds
  from there, which is positive while something is left. When nothing is left after it,
  it is the last round; otherwise the rounds after it are those of the rest.
\<close>

fun chunks_ok :: "nat \<Rightarrow> nat \<Rightarrow> nat \<Rightarrow> (32 word \<times> nat \<times> nat) list \<Rightarrow> bool" where
  "chunks_ok S pos tot [] = False"
| "chunks_ok S pos tot ((i, l, s) # cs) =
     (i = word_of_nat (pos div S) \<and> s = pos mod S \<and> l = min tot (S - s)
      \<and> (0 < tot \<longrightarrow> 0 < l)
      \<and> (if tot - l = 0 then cs = [] else chunks_ok S (pos + l) (tot - l) cs))"

text \<open>
  The data objects a byte range spans: the objects that hold at least one of its
  bytes, byte \<open>b\<close> lying in object \<open>b div S\<close>.
\<close>

definition objects_spanned :: "nat \<Rightarrow> nat \<Rightarrow> nat \<Rightarrow> nat set" where
  "objects_spanned S off n = (\<lambda>b. b div S) ` {off ..< off + n}"

text \<open>The sub-requests allocated, the operations submitted and the callbacks in a trace.\<close>

fun allocs :: "event list \<Rightarrow> sheep_request list" where
  "allocs [] = []"
| "allocs (Alloc r # es) = r # allocs es"
| "allocs (e # es) = allocs es"


definition dones :: "nat \<Rightarrow> event list \<Rightarrow> nat" where
  "dones a es = count_list es (Done a)"

text \<open>The events a step added: those of \<open>c'\<close> after those of \<open>c\<close>.\<close>

definition new_events :: "cluster \<Rightarrow> cluster \<Rightarrow> event list" where
  "new_events c c' = drop (length (trace c)) (trace c')"

text \<open>The live sub-requests of an aiocb: submitted and not yet answered, or blocked.\<close>

definition live :: "nat \<Rightarrow> cluster \<Rightarrow> nat" where
  "live a c =
     length (filter (\<lambda>r. aio_id (aiocb r) = a) (inflight_list c @ blocking_list c))"

text \<open>
  The state of an aiocb once \<open>vdi_rw_request\<close> has returned, \<open>d\<close> being the number of
  calls of its callback before the request: the counter is the number of live
  sub-requests, and the callback has been called once more exactly if that number is 0.
\<close>

definition accounted :: "nat \<Rightarrow> nat \<Rightarrow> cluster \<Rightarrow> bool" where
  "accounted a d c =
     (nr_requests c a = int (live a c)
      \<and> dones a (trace c) = d + (if live a c = 0 then 1 else 0))"


text \<open>
  The state of an aiocb while \<open>vdi_rw_request\<close> holds its extra reference: the counter
  is one more than the number of live sub-requests, and the callback has been called
  \<open>d\<close> times, as before the request.
\<close>

definition holding :: "nat \<Rightarrow> nat \<Rightarrow> cluster \<Rightarrow> bool" where
  "holding a d c = (nr_requests c a = 1 + int (live a c) \<and> dones a (trace c) = d)"

text \<open>
  Both at once: with \<open>e\<close> references of the engine's own on the counter, the counter is
  \<open>e\<close> more than the number of live sub-requests, and the callback has been called once
  more than before exactly if the counter is 0.
\<close>

definition balanced :: "nat \<Rightarrow> nat \<Rightarrow> nat \<Rightarrow> cluster \<Rightarrow> bool" where
  "balanced e a d c =
     (nr_requests c a = int e + int (live a c)
      \<and> dones a (trace c) = d + (if e + live a c = 0 then 1 else 0))"

text \<open>
  The rounds of a request and the replies of the object store, as they may fall: a round
  of the loop of \<open>vdi_rw_request\<close> for the aiocb, or the reply to the request at a
  position of the list of requests in flight.
\<close>

datatype engine_step = Round "32 word \<times> nat \<times> nat" | Reply nat

fun run_steps :: "nat \<Rightarrow> sheep_aiocb \<Rightarrow> engine_step list \<Rightarrow> cluster \<Rightarrow> cluster" where
  "run_steps H a [] c = c"
| "run_steps H a (Round (i, l, st) # ss) c = run_steps H a ss (vdi_rw_body a i l st c)"
| "run_steps H a (Reply j # ss) c =
     run_steps H a ss
       (if j < length (inflight_list c) then handle_reply H (inflight_list c ! j) c else c)"

text \<open>The rounds among the steps, in their order.\<close>

fun rounds_of :: "engine_step list \<Rightarrow> (32 word \<times> nat \<times> nat) list" where
  "rounds_of [] = []"
| "rounds_of (Round ch # ss) = ch # rounds_of ss"
| "rounds_of (Reply j # ss) = rounds_of ss"

text \<open>
  The first and the last statement of \<open>vdi_rw_request\<close> on their own: taking the extra
  reference before the loop, and dropping it after the loop with the call of the
  callback when the counter is then 0 or less.
\<close>

definition take_reference :: "sheep_aiocb \<Rightarrow> cluster \<Rightarrow> cluster" where
  "take_reference a c =
     c\<lparr>nr_requests := (nr_requests c)(aio_id a := nr_requests c (aio_id a) + 1)\<rparr>"

definition drop_reference :: "sheep_aiocb \<Rightarrow> cluster \<Rightarrow> cluster" where
  "drop_reference a c =
     (let n = nr_requests c (aio_id a) - 1;
          c3 = c\<lparr>nr_requests := (nr_requests c)(aio_id a := n)\<rparr>
      in if n \<le> 0 then emit [Done (aio_id a)] c3 else c3)"

text \<open>The sub-request a round of the loop allocates, as the body sets its fields.\<close>

definition round_req :: "sheep_aiocb \<Rightarrow> 32 word \<Rightarrow> nat \<Rightarrow> nat \<Rightarrow> cluster \<Rightarrow> sheep_request" where
  "round_req a idx len start c =
     (let vid = data_vdi_id c (aio_vid a) idx;
          other = (vid \<noteq> 0 \<and> vid \<noteq> aio_vid a)
      in \<lparr>aiocb = a,
          oid = (if other \<and> aio_opcode a \<noteq> VDI_WRITE then DataOid vid idx
                 else DataOid (aio_vid a) idx),
          cow_oid = (if other \<and> aio_opcode a = VDI_WRITE then Some (DataOid vid idx) else None),
          offset = start, rlength = len, seq_num = c_seq_num c + 1,
          opcode = aio_opcode a\<rparr>)"

text \<open>
  What becomes of the sub-request of a round: it is submitted (as it is, or as a
  create), ended at once, or put on the blocking list.
\<close>

datatype fate = Submitted sheep_request | Ended | Blocked

definition round_fate :: "sheep_aiocb \<Rightarrow> 32 word \<Rightarrow> nat \<Rightarrow> nat \<Rightarrow> cluster \<Rightarrow> fate" where
  "round_fate a idx len start c =
     (let vid = data_vdi_id c (aio_vid a) idx;
          req = round_req a idx len start c
      in if vid \<noteq> 0 \<and> cow_oid req = None then Submitted req
         else case aio_opcode a of
                VDI_READ \<Rightarrow> Ended
              | VDI_WRITE \<Rightarrow>
                  if find_inflight_request_oid c (oid req) then Blocked
                  else Submitted (req\<lparr>opcode := VDI_CREATE\<rparr>)
              | VDI_CREATE \<Rightarrow> Submitted req)"

text \<open>The write of the index slot that \<open>vdi_create_respond\<close> builds for a create \<open>req\<close>.\<close>

definition inode_write :: "nat \<Rightarrow> sheep_request \<Rightarrow> cluster \<Rightarrow> sheep_request" where
  "inode_write H req c =
     \<lparr>aiocb = aiocb req, oid = VdiOid (aio_vid (aiocb req)), cow_oid = None,
      offset = H + 4 * unat (data_oid_to_idx (oid req)), rlength = 4,
      seq_num = c_seq_num c + 1, opcode = VDI_WRITE\<rparr>"

subsection \<open>A cluster with one snapshot ancestor, for evaluation\<close>

text \<open>
  VDI 7 is a clone of snapshot 3: index 0 is still the snapshot's object, index 1 is the
  clone's own, every other index is unallocated. Nothing is in flight. Objects are
  4 MiB, and the index map starts 4616 bytes into the inode object.
\<close>

definition ex_cluster :: cluster where
  "ex_cluster = \<lparr>data_vdi_id = (\<lambda>v i. if v = 7 \<and> i = 0 then 3 else if v = 7 \<and> i = 1 then 7 else 0),
     nr_requests = (\<lambda>a. 0), c_seq_num = 0, inflight_list = [], blocking_list = [],
     trace = []\<rparr>"

definition ex_aiocb :: "nat \<Rightarrow> vdi_opcode \<Rightarrow> nat \<Rightarrow> nat \<Rightarrow> sheep_aiocb" where
  "ex_aiocb i opc off n =
     \<lparr>aio_id = i, aio_offset = off, aio_length = n, aio_opcode = opc, aio_vid = 7\<rparr>"


section \<open>Properties of the handlers of sheep/ops.c\<close>

subsection \<open>Recovery completion\<close>


















subsection \<open>Cluster format\<close>








subsection \<open>Forced recovery\<close>

text \<open>
  C8. The work phase answers FORCE_RECOVER, leaving the request as it was, when the
  status is not WAIT or the request carries no view, and also when the view of the
  current epoch cannot be read. The main phase answers FORCE_RECOVER and changes
  nothing (so neither epoch nor status) when the epoch the work phase recorded is not
  the current one. When the epochs agree and the epoch log cannot be written, the main
  phase panics; when it can, the result is SUCCESS with the epoch advanced by 1 and the
  status OK. These three cases are all there are, so FORCE_RECOVER is the only error
  code of the main phase.
\<close>

theorem C8_force_recover:
  "(status (cinfo s) \<noteq> SD_STATUS_WAIT \<or> vinfo req = None \<longrightarrow>
      cluster_force_recover_work k gvie req s = (SD_RES_FORCE_RECOVER, req))
   \<and> (\<forall>v. vinfo req = Some v \<and> gvie (epoch (cinfo s)) v = None \<longrightarrow>
      cluster_force_recover_work k gvie req s = (SD_RES_FORCE_RECOVER, req))
   \<and> (rsp_epoch \<noteq> epoch (cinfo s) \<longrightarrow>
      cluster_force_recover_main k log_ok rsp_epoch len buf s = Inr (SD_RES_FORCE_RECOVER, s))
   \<and> (rsp_epoch = epoch (cinfo s) \<and> \<not> log_ok \<longrightarrow>
      cluster_force_recover_main k log_ok rsp_epoch len buf s = Inl Panic)
   \<and> (rsp_epoch = epoch (cinfo s) \<and> log_ok \<longrightarrow>
      (\<exists>s'. cluster_force_recover_main k log_ok rsp_epoch len buf s = Inr (SD_RES_SUCCESS, s')
         \<and> epoch (cinfo s') = epoch (cinfo s) + 1 \<and> status (cinfo s') = SD_STATUS_OK))"
  by (auto simp: cluster_force_recover_work_def cluster_force_recover_main_def Let_def
        inc_and_log_epoch_def set_cluster_config_def is_cluster_formatted_def
        split: option.splits)

theorem C8_force_recover_witness:
  "cluster_force_recover_work ex_consts (\<lambda>e v. Some v)
       \<lparr>vinfo = Some ex_view, rq_data_length = 256, rp_epoch = 0, rp_data_length = 0,
        data = []\<rparr> (ex_sys\<lparr>cinfo := (cinfo ex_sys)\<lparr>status := SD_STATUS_OK\<rparr>\<rparr>)
     = (SD_RES_FORCE_RECOVER,
        \<lparr>vinfo = Some ex_view, rq_data_length = 256, rp_epoch = 0, rp_data_length = 0,
         data = []\<rparr>)
   \<and> cluster_force_recover_main ex_consts True 4 256 [node_a, node_b] ex_sys
     = Inr (SD_RES_FORCE_RECOVER, ex_sys)
   \<and> cluster_force_recover_main ex_consts False 5 256 [node_a, node_b] ex_sys = Inl Panic"
proof -
  have e: "epoch (cinfo ex_sys) = 5" by (simp add: ex_sys_def)
  have ne: "(4::32 word) \<noteq> 5" by simp
  have st: "status (cinfo (ex_sys\<lparr>cinfo := (cinfo ex_sys)\<lparr>status := SD_STATUS_OK\<rparr>\<rparr>))
              \<noteq> SD_STATUS_WAIT"
    by simp
  from C8_force_recover[of "ex_sys\<lparr>cinfo := (cinfo ex_sys)\<lparr>status := SD_STATUS_OK\<rparr>\<rparr>"
      "\<lparr>vinfo = Some ex_view, rq_data_length = 256, rp_epoch = 0, rp_data_length = 0,
        data = []\<rparr>" ex_consts "\<lambda>e v. Some v"] st
  have 1: "cluster_force_recover_work ex_consts (\<lambda>e v. Some v)
       \<lparr>vinfo = Some ex_view, rq_data_length = 256, rp_epoch = 0, rp_data_length = 0,
        data = []\<rparr> (ex_sys\<lparr>cinfo := (cinfo ex_sys)\<lparr>status := SD_STATUS_OK\<rparr>\<rparr>)
     = (SD_RES_FORCE_RECOVER,
        \<lparr>vinfo = Some ex_view, rq_data_length = 256, rp_epoch = 0, rp_data_length = 0,
         data = []\<rparr>)"
    by blast
  from C8_force_recover[of ex_sys _ _ _ 4 True 256 "[node_a, node_b]"] e ne
  have 2: "cluster_force_recover_main ex_consts True 4 256 [node_a, node_b] ex_sys
     = Inr (SD_RES_FORCE_RECOVER, ex_sys)"
    by simp
  from C8_force_recover[of ex_sys _ _ _ 5 False 256 "[node_a, node_b]"] e
  have 3: "cluster_force_recover_main ex_consts False 5 256 [node_a, node_b] ex_sys = Inl Panic"
    by simp
  from 1 2 3 show ?thesis by simp
qed


subsection \<open>The force flag in the operation table\<close>

lemma map_of_sd_ops_STAT_RECOVERY:
  "map_of (sd_ops b) ''SD_OP_STAT_RECOVERY'' =
     Some \<lparr>name = ''STAT_RECOVERY'', type = SD_OP_TYPE_LOCAL, force = False,
       is_admin_op = False, process_work = None,
       process_main = Some ''local_stat_recovery''\<rparr>"
  by (simp add: sd_ops_def)

text \<open>
  C9, as stated, at STAT_RECOVERY: the claim lists STAT_RECOVERY among the operations whose
  descriptor carries \<open>force = true\<close>. Its initialiser sets only name, type and
  process_main, so the flag is false and \<open>is_force_op\<close> answers false.
\<close>

theorem C9_stat_recovery_not_force:
  "\<not> is_force_op (get_sd_op False ''SD_OP_STAT_RECOVERY'')"
  by (simp add: is_force_op_def get_sd_op_def map_of_sd_ops_STAT_RECOVERY)

text \<open>
  C9, amended: STAT_CLUSTER, SHUTDOWN and FORCE_RECOVER carry \<open>force = true\<close> and
  \<open>is_force_op\<close> answers true for each of them, whether or not the NFS entries are
  compiled in; STAT_RECOVERY is a registered LOCAL operation whose force flag is false,
  so it does not bypass the gate.
\<close>

theorem C9_force_ops:
  "is_force_op (get_sd_op b ''SD_OP_STAT_CLUSTER'')
   \<and> is_force_op (get_sd_op b ''SD_OP_SHUTDOWN'')
   \<and> is_force_op (get_sd_op b ''SD_OP_FORCE_RECOVER'')
   \<and> is_local_op (get_sd_op b ''SD_OP_STAT_RECOVERY'')
   \<and> is_force_op (get_sd_op b ''SD_OP_STAT_RECOVERY'') = False"
  by (simp add: is_force_op_def is_local_op_def get_sd_op_def sd_ops_def)


subsection \<open>The rounds of the splitting loop\<close>

declare rw_chunks.simps [simp del]

text \<open>
  Entered with a length that is positive and at most what is left (or with nothing
  left), the loop ends, and its result is the body applied round by round.
\<close>

lemma vdi_rw_loop_fold:
  assumes "0 < S" "len \<le> tot" "tot = 0 \<or> 0 < len"
  shows "vdi_rw_loop S a idx tot start len c
           = Some (fold (\<lambda>(i, l, st). vdi_rw_body a i l st) (rw_chunks S idx tot start len) c)"
  using assms
proof (induction S idx tot start len arbitrary: c rule: rw_chunks.induct)
  case (1 S idx tot start len)
  show ?case
  proof (cases "0 < len \<and> len < tot")
    case True
    let ?t = "tot - len"
    have sub: "sub_u64 tot len = ?t" using 1(3) by (simp add: sub_u64_def)
    have pos: "0 < ?t" using True by simp
    have ih: "vdi_rw_loop S a (idx + 1) ?t ((start + len) mod S) (if S < ?t then S else ?t)
                 (vdi_rw_body a idx len start c)
              = Some (fold (\<lambda>(i, l, st). vdi_rw_body a i l st)
                   (rw_chunks S (idx + 1) ?t ((start + len) mod S) (if S < ?t then S else ?t))
                   (vdi_rw_body a idx len start c))"
      using 1(1)[OF True] 1(2) pos by simp
    show ?thesis
      apply (subst vdi_rw_loop.simps)
      apply (subst rw_chunks.simps)
      using True pos ih by (simp add: sub Let_def)
  next
    case False
    then have z: "sub_u64 tot len = 0" using 1(3,4) by (auto simp: sub_u64_def)
    show ?thesis
      apply (subst vdi_rw_loop.simps)
      apply (subst rw_chunks.simps)
      using False by (auto simp: z Let_def)
  qed
qed

lemma rw_chunks_length:
  assumes "start < S" "len = min tot (S - start)"
  shows "length (rw_chunks S idx tot start len)
           = (if tot = 0 then 1 else (start + tot - 1) div S + 1)"
  using assms
proof (induction S idx tot start len rule: rw_chunks.induct)
  case (1 S idx tot start len)
  show ?case
  proof (cases "0 < len \<and> len < tot")
    case True
    then have len: "len = S - start" using 1(3) by (simp add: min_def split: if_splits)
    let ?t = "tot - len"
    let ?rest = "rw_chunks S (idx + 1) ?t ((start + len) mod S) (if S < ?t then S else ?t)"
    have pos: "0 < ?t" using True by simp
    have st: "(start + len) mod S = 0" using len 1(2) by simp
    have p1: "(start + len) mod S < S" using 1(2) by simp
    have p2: "(if S < ?t then S else ?t) = min ?t (S - (start + len) mod S)"
      using st by (simp add: min_def)
    have ih: "length ?rest = (?t - 1) div S + 1"
      using 1(1)[OF True p1 p2] st pos by simp
    have ge: "S \<le> start + tot - 1" using True len 1(2) by simp
    have Spos: "0 < S" using 1(2) by simp
    have e: "start + tot - 1 - S = ?t - 1" using len True 1(2) by simp
    have "length (rw_chunks S idx tot start len) = Suc (length ?rest)"
      by (subst rw_chunks.simps) (simp add: True)
    also have "\<dots> = Suc ((start + tot - 1 - S) div S) + 1" using ih e by simp
    also have "\<dots> = (start + tot - 1) div S + 1"
      using le_div_geq[OF Spos ge] by simp
    finally show ?thesis using True by simp
  next
    case False
    then have "tot = 0 \<or> tot \<le> S - start" using 1(2,3) by (auto simp: min_def split: if_splits)
    then have "tot = 0 \<or> (start + tot - 1) div S = 0" using 1(2) by auto
    moreover have "length (rw_chunks S idx tot start len) = 1"
      by (subst rw_chunks.simps) (simp add: False)
    ultimately show ?thesis by auto
  qed
qed

lemma rw_chunks_ok:
  assumes "0 < S" "start = pos mod S" "idx = word_of_nat (pos div S)" "len = min tot (S - start)"
  shows "chunks_ok S pos tot (rw_chunks S idx tot start len)"
  using assms
proof (induction S idx tot start len arbitrary: pos rule: rw_chunks.induct)
  case (1 S idx tot start len)
  have Spos: "0 < S" and start: "start = pos mod S" and idx: "idx = word_of_nat (pos div S)"
    and lenm: "len = min tot (S - start)"
    using 1(2-5) by simp_all
  have lt: "start < S" using Spos start by simp
  have l0: "0 < tot \<longrightarrow> 0 < len" using lenm lt by (simp add: min_def)
  show ?case
  proof (cases "0 < len \<and> len < tot")
    case True
    then have len: "len = S - start" using lenm by (simp add: min_def split: if_splits)
    let ?t = "tot - len"
    let ?rest = "rw_chunks S (idx + 1) ?t ((start + len) mod S) (if S < ?t then S else ?t)"
    have "pos = pos div S * S + pos mod S" by simp
    then have "pos + len = pos div S * S + start + (S - start)" using len start by simp
    then have pl: "pos + len = (pos div S + 1) * S" using lt by simp
    have m: "(pos + len) mod S = 0" unfolding pl by simp
    have d: "(pos + len) div S = pos div S + 1" unfolding pl using Spos by simp
    have st: "(start + len) mod S = 0" using len lt by simp
    have a2: "(start + len) mod S = (pos + len) mod S" using st m by simp
    have a3: "idx + 1 = word_of_nat ((pos + len) div S)" unfolding d idx by simp
    have a4: "(if S < ?t then S else ?t) = min ?t (S - (start + len) mod S)"
      using st by (simp add: min_def)
    have rest: "chunks_ok S (pos + len) ?t ?rest"
      by (rule 1(1)[OF True Spos a2 a3 a4])
    have e: "rw_chunks S idx tot start len = (idx, len, start) # ?rest"
      by (subst rw_chunks.simps) (simp add: True)
    have c: "if tot - len = 0 then ?rest = [] else chunks_ok S (pos + len) (tot - len) ?rest"
      using True rest by simp
    show ?thesis
      unfolding e chunks_ok.simps by (intro conjI idx start lenm l0 c)
  next
    case False
    then have "tot = 0 \<or> len = tot" using lenm lt by (auto simp: min_def split: if_splits)
    then have z: "tot - len = 0" by auto
    have e: "rw_chunks S idx tot start len = [(idx, len, start)]"
      by (subst rw_chunks.simps) (simp add: False)
    have c: "if tot - len = 0 then [] = ([]::(32 word \<times> nat \<times> nat) list) else False"
      using z by simp
    show ?thesis
      unfolding e chunks_ok.simps by (intro conjI idx start lenm l0 c)
  qed
qed

lemma first_len_min: "(if n < S - r then n else S - r) = min n (S - (r::nat))"
  by (simp add: min_def)

lemma request_chunks_ok: "0 < S \<Longrightarrow> chunks_ok S off n (request_chunks S off n)"
  unfolding request_chunks_def first_len_min by (rule rw_chunks_ok) simp_all

lemma request_chunks_length:
  "0 < S \<Longrightarrow> length (request_chunks S off n)
      = (if n = 0 then 1 else (off mod S + n - 1) div S + 1)"
  unfolding request_chunks_def first_len_min by (rule rw_chunks_length) simp_all

lemma div_image_interval:
  assumes "0 < (S::nat)" "0 < (n::nat)"
  shows "(\<lambda>b. b div S) ` {off ..< off + n} = {off div S .. (off + n - 1) div S}"
proof (intro equalityI subsetI)
  fix q assume "q \<in> (\<lambda>b. b div S) ` {off ..< off + n}"
  then obtain b where b: "off \<le> b" "b < off + n" "q = b div S" by auto
  have "off div S \<le> b div S" using b(1) by (simp add: div_le_mono)
  moreover have "b \<le> off + n - 1" using b(2) by simp
  then have "b div S \<le> (off + n - 1) div S" by (simp add: div_le_mono)
  ultimately show "q \<in> {off div S .. (off + n - 1) div S}" using b(3) by simp
next
  fix q assume q: "q \<in> {off div S .. (off + n - 1) div S}"
  let ?b = "max off (q * S)"
  have qs: "q * S \<le> off + n - 1"
  proof -
    have "q * S \<le> ((off + n - 1) div S) * S" using q by simp
    also have "\<dots> \<le> off + n - 1" by simp
    finally show ?thesis .
  qed
  have lo: "off \<le> ?b" by simp
  have hi: "?b < off + n" using qs assms(2) by simp
  have bq: "?b div S = q"
  proof (cases "q * S \<le> off")
    case True
    then have "q \<le> off div S" using assms(1) by (simp add: less_eq_div_iff_mult_less_eq)
    then have "q = off div S" using q by simp
    then show ?thesis using True by (simp add: max_def)
  next
    case False
    then show ?thesis using assms(1) by (simp add: max_def)
  qed
  have "?b \<in> {off ..< off + n}" using lo hi by simp
  then have "?b div S \<in> (\<lambda>b. b div S) ` {off ..< off + n}" by (rule imageI)
  then show "q \<in> (\<lambda>b. b div S) ` {off ..< off + n}" unfolding bq .
qed

lemma card_objects_spanned:
  assumes "0 < S" "0 < n"
  shows "card (objects_spanned S off n) = (off mod S + n - 1) div S + 1"
proof -
  have "off + n - 1 = off div S * S + (off mod S + n - 1)" using assms(2) by simp
  then have "(off + n - 1) div S = off div S + (off mod S + n - 1) div S"
    using assms(1) by (metis div_mult_self3 nat_neq_iff)
  then show ?thesis
    unfolding objects_spanned_def div_image_interval[OF assms] by simp
qed

lemma objects_spanned_0: "objects_spanned S off 0 = {}"
  by (simp add: objects_spanned_def)


subsection \<open>Traces, counters and the body of the loop\<close>


lemma allocs_append: "allocs (xs @ ys) = allocs xs @ allocs ys"
  by (induction xs rule: allocs.induct) simp_all


lemma dones_append: "dones a (xs @ ys) = dones a xs + dones a ys"
  by (simp add: dones_def)


lemma allocs_map_Submit: "allocs (map Submit rs) = []"
  by (induction rs) simp_all

lemma dones_map_Submit: "dones a (map Submit rs) = 0"
  by (induction rs) (simp_all add: dones_def)

lemma emit_simps:
  "trace (emit es c) = trace c @ es"
  "data_vdi_id (emit es c) = data_vdi_id c"
  "nr_requests (emit es c) = nr_requests c"
  "c_seq_num (emit es c) = c_seq_num c"
  "inflight_list (emit es c) = inflight_list c"
  "blocking_list (emit es c) = blocking_list c"
  by (simp_all add: emit_def)

lemma submit_simps:
  "trace (submit_sheep_request r c) = trace c @ [Submit r]"
  "data_vdi_id (submit_sheep_request r c) = data_vdi_id c"
  "nr_requests (submit_sheep_request r c) = nr_requests c"
  "c_seq_num (submit_sheep_request r c) = c_seq_num c"
  "inflight_list (submit_sheep_request r c) = inflight_list c @ [r]"
  "blocking_list (submit_sheep_request r c) = blocking_list c"
  by (simp_all add: submit_sheep_request_def emit_def)

lemma end_simps:
  "trace (end_sheep_request r c) =
     trace c @ End r # (if nr_requests c (aio_id (aiocb r)) - 1 \<le> 0
                        then [Done (aio_id (aiocb r))] else [])"
  "data_vdi_id (end_sheep_request r c) = data_vdi_id c"
  "nr_requests (end_sheep_request r c) =
     (nr_requests c)(aio_id (aiocb r) := nr_requests c (aio_id (aiocb r)) - 1)"
  "c_seq_num (end_sheep_request r c) = c_seq_num c"
  "inflight_list (end_sheep_request r c) = inflight_list c"
  "blocking_list (end_sheep_request r c) = blocking_list c"
  by (simp_all add: end_sheep_request_def emit_def Let_def)

lemma fold_submit_simps:
  "trace (fold submit_sheep_request rs c) = trace c @ map Submit rs"
  "data_vdi_id (fold submit_sheep_request rs c) = data_vdi_id c"
  "nr_requests (fold submit_sheep_request rs c) = nr_requests c"
  "c_seq_num (fold submit_sheep_request rs c) = c_seq_num c"
  "inflight_list (fold submit_sheep_request rs c) = inflight_list c @ rs"
  "blocking_list (fold submit_sheep_request rs c) = blocking_list c"
  by (induction rs arbitrary: c) (simp_all add: submit_simps)

lemma submit_blocking_simps:
  "trace (submit_blocking_sheep_request obj c) =
     trace c @ map Submit (filter (\<lambda>r. oid r = obj) (blocking_list c))"
  "data_vdi_id (submit_blocking_sheep_request obj c) = data_vdi_id c"
  "nr_requests (submit_blocking_sheep_request obj c) = nr_requests c"
  "c_seq_num (submit_blocking_sheep_request obj c) = c_seq_num c"
  "inflight_list (submit_blocking_sheep_request obj c) =
     inflight_list c @ filter (\<lambda>r. oid r = obj) (blocking_list c)"
  "blocking_list (submit_blocking_sheep_request obj c) =
     filter (\<lambda>r. oid r \<noteq> obj) (blocking_list c)"
  by (simp_all add: submit_blocking_sheep_request_def fold_submit_simps)

lemmas body_defs = vdi_rw_body_def alloc_sheep_request_def sheep_inode_get_vid_def
  vid_to_data_oid_def find_inflight_request_oid_def Let_def

lemma body_allocs:
  "allocs (trace (vdi_rw_body a idx len start c))
     = allocs (trace c) @ [round_req a idx len start c]"
  by (auto simp: body_defs round_req_def emit_simps submit_simps end_simps allocs_append
      split: vdi_opcode.splits)

lemma body_trace_prefix:
  "\<exists>es. trace (vdi_rw_body a idx len start c) = trace c @ es"
  by (auto simp: body_defs emit_simps submit_simps end_simps split: vdi_opcode.splits)

lemma find_inflight_alloc:
  "find_inflight_request_oid (snd (alloc_sheep_request a obj cow len start c)) x
     = find_inflight_request_oid c x"
  by (simp add: find_inflight_request_oid_def alloc_sheep_request_def Let_def emit_def)

lemma body_eq:
  "vdi_rw_body a idx len start c =
     (let req = round_req a idx len start c;
          c1 = emit [Alloc req]
                 (c\<lparr>c_seq_num := c_seq_num c + 1,
                    nr_requests := (nr_requests c)(aio_id a := nr_requests c (aio_id a) + 1)\<rparr>)
      in case round_fate a idx len start c of
           Submitted r \<Rightarrow> submit_sheep_request r c1
         | Ended \<Rightarrow> end_sheep_request req c1
         | Blocked \<Rightarrow>
             emit [Enqueue req, Unlock blocking_lock]
               ((emit [WLock blocking_lock] c1)
                  \<lparr>blocking_list := blocking_list c1 @ [req]\<rparr>))"
proof (cases "aio_opcode a")
  case VDI_READ
  then show ?thesis
    by (simp add: body_defs round_req_def round_fate_def emit_def)
next
  case VDI_WRITE
  then show ?thesis
    by (simp add: body_defs round_req_def round_fate_def emit_def)
next
  case VDI_CREATE
  then show ?thesis
    by (simp add: body_defs round_req_def round_fate_def emit_def)
qed

lemma round_req_aiocb [simp]: "aiocb (round_req a idx len start c) = a"
  by (simp add: round_req_def Let_def)

lemma round_fate_Submitted_aiocb:
  "round_fate a idx len start c = Submitted r \<Longrightarrow> aiocb r = a"
  by (auto simp: round_fate_def Let_def split: if_splits vdi_opcode.splits)

lemma live_simps:
  "live a (emit es c) = live a c"
  "live a (submit_sheep_request r c) = live a c + (if aio_id (aiocb r) = a then 1 else 0)"
  "live a (end_sheep_request r c) = live a c"
  "live a (c\<lparr>nr_requests := n\<rparr>) = live a c"
  "live a (c\<lparr>c_seq_num := k\<rparr>) = live a c"
  "live a (c\<lparr>blocking_list := blocking_list c @ [r]\<rparr>)
     = live a c + (if aio_id (aiocb r) = a then 1 else 0)"
  by (simp_all add: live_def emit_simps submit_simps end_simps)

lemma body_holding:
  assumes "holding (aio_id A) d c"
  shows "holding (aio_id A) d (vdi_rw_body A idx len start c)"
proof (cases "round_fate A idx len start c")
  case (Submitted r)
  then have "aiocb r = A" by (rule round_fate_Submitted_aiocb)
  then show ?thesis
    using assms Submitted
    by (simp add: body_eq Let_def holding_def live_simps submit_simps emit_simps dones_append
        dones_def)
next
  case Ended
  then show ?thesis
    using assms
    by (simp add: body_eq Let_def holding_def live_simps end_simps emit_simps dones_append
        dones_def)
next
  case Blocked
  have "live (aio_id A) ((emit [WLock blocking_lock]
           (emit [Alloc (round_req A idx len start c)]
             (c\<lparr>c_seq_num := c_seq_num c + 1,
                nr_requests := (nr_requests c)(aio_id A := nr_requests c (aio_id A) + 1)\<rparr>)))
          \<lparr>blocking_list := blocking_list c @ [round_req A idx len start c]\<rparr>)
        = live (aio_id A) c + 1"
    by (simp add: live_def emit_def)
  then show ?thesis
    using assms Blocked
    by (simp add: body_eq Let_def holding_def live_simps emit_simps dones_append dones_def)
qed

lemma fold_body_holding:
  "holding (aio_id A) d c \<Longrightarrow>
     holding (aio_id A) d (fold (\<lambda>(i, l, st). vdi_rw_body A i l st) chs c)"
  by (induction chs arbitrary: c) (auto simp: body_holding)

lemma fold_body_allocs:
  "map (\<lambda>r. (data_oid_to_idx (oid r), rlength r, offset r))
       (allocs (trace (fold (\<lambda>(i, l, st). vdi_rw_body A i l st) chs c)))
   = map (\<lambda>r. (data_oid_to_idx (oid r), rlength r, offset r)) (allocs (trace c)) @ chs"
proof (induction chs arbitrary: c)
  case Nil
  then show ?case by simp
next
  case (Cons ch chs)
  obtain i l st where ch: "ch = (i, l, st)" by (cases ch)
  have "(\<lambda>r. (data_oid_to_idx (oid r), rlength r, offset r)) (round_req A i l st c) = (i, l, st)"
    by (simp add: round_req_def Let_def)
  then show ?case
    unfolding ch by (simp add: Cons.IH body_allocs)
qed

lemma fold_body_prefix:
  "\<exists>es. trace (fold (\<lambda>(i, l, st). vdi_rw_body A i l st) chs c) = trace c @ es"
proof (induction chs arbitrary: c)
  case Nil
  then show ?case by simp
next
  case (Cons ch chs)
  obtain i l st where ch: "ch = (i, l, st)" by (cases ch)
  obtain es1 where 1: "trace (vdi_rw_body A i l st c) = trace c @ es1"
    using body_trace_prefix by blast
  obtain es2 where 2: "trace (fold (\<lambda>(i, l, st). vdi_rw_body A i l st) chs (vdi_rw_body A i l st c))
       = trace (vdi_rw_body A i l st c) @ es2"
    using Cons.IH by blast
  show ?case unfolding ch using 1 2 by simp
qed

lemma filter_pos: "r \<in> set xs \<Longrightarrow> P r \<Longrightarrow> 0 < length (filter P xs)"
  by (induction xs) auto

lemma length_filter_remove1:
  "r \<in> set xs \<Longrightarrow>
     length (filter P (remove1 r xs)) = length (filter P xs) - (if P r then 1 else 0)"
proof (induction xs)
  case Nil
  then show ?case by simp
next
  case (Cons x xs)
  show ?case
  proof (cases "r = x")
    case True
    then show ?thesis by simp
  next
    case False
    then have in_xs: "r \<in> set xs" using Cons.prems by simp
    have "P r \<Longrightarrow> 0 < length (filter P xs)" using filter_pos[OF in_xs] .
    then show ?thesis using False Cons.IH[OF in_xs] by auto
  qed
qed

lemma length_filter_split:
  "length (filter P (filter Q xs)) + length (filter P (filter (\<lambda>x. \<not> Q x) xs))
     = length (filter P xs)"
  by (induction xs) auto

text \<open>The request as a whole.\<close>

lemma vdi_rw_request_eq:
  assumes "0 < S"
  shows "vdi_rw_request S a c =
    (let c2 = fold (\<lambda>(i, l, st). vdi_rw_body a i l st)
                (request_chunks S (aio_offset a) (aio_length a))
                (c\<lparr>nr_requests := (nr_requests c)(aio_id a := nr_requests c (aio_id a) + 1)\<rparr>);
         n = nr_requests c2 (aio_id a) - 1;
         c3 = c2\<lparr>nr_requests := (nr_requests c2)(aio_id a := n)\<rparr>
     in Some (if n \<le> 0 then emit [Done (aio_id a)] c3 else c3))"
proof -
  let ?n = "aio_length a" and ?r = "aio_offset a mod S"
  let ?len = "if ?n < S - ?r then ?n else S - ?r"
  have r: "?r < S" using assms by simp
  have 1: "?len \<le> ?n" by simp
  have 2: "?n = 0 \<or> 0 < ?len" using r by auto
  show ?thesis
    unfolding vdi_rw_request_def Let_def request_chunks_def
    by (simp add: vdi_rw_loop_fold[OF assms 1 2])
qed

lemma vdi_rw_request_accounted:
  assumes "0 < S" "nr_requests c (aio_id a) = 0" "live (aio_id a) c = 0"
    "vdi_rw_request S a c = Some c'"
  shows "accounted (aio_id a) (dones (aio_id a) (trace c)) c'"
proof -
  let ?c1 = "c\<lparr>nr_requests := (nr_requests c)(aio_id a := nr_requests c (aio_id a) + 1)\<rparr>"
  let ?c2 = "fold (\<lambda>(i, l, st). vdi_rw_body a i l st)
                (request_chunks S (aio_offset a) (aio_length a)) ?c1"
  have "holding (aio_id a) (dones (aio_id a) (trace c)) ?c1"
    using assms(2,3) by (simp add: holding_def live_def)
  then have h: "holding (aio_id a) (dones (aio_id a) (trace c)) ?c2"
    by (rule fold_body_holding)
  have lv: "live (aio_id a) (?c2\<lparr>nr_requests := x\<rparr>) = live (aio_id a) ?c2" for x
    by (simp add: live_def)
  have n: "nr_requests ?c2 (aio_id a) - 1 = int (live (aio_id a) ?c2)"
    and d: "dones (aio_id a) (trace ?c2) = dones (aio_id a) (trace c)"
    using h by (simp_all add: holding_def)
  let ?c3 = "?c2\<lparr>nr_requests := (nr_requests ?c2)(aio_id a := int (live (aio_id a) ?c2))\<rparr>"
  have c': "c' = (if live (aio_id a) ?c2 = 0 then emit [Done (aio_id a)] ?c3 else ?c3)"
    using assms(4) unfolding vdi_rw_request_eq[OF assms(1)] Let_def n by simp
  show ?thesis
  proof (cases "live (aio_id a) ?c2 = 0")
    case True
    then show ?thesis
      unfolding c' accounted_def using d
      by (simp add: live_simps emit_simps dones_append lv) (simp add: dones_def)
  next
    case False
    then show ?thesis
      unfolding c' accounted_def using d
      by (simp add: live_simps emit_simps lv)
  qed
qed

lemma vcr_simps:
  "trace (vdi_create_respond H req c) =
     trace c @ [WLock (vdi_lock (aio_vid (aiocb req))),
                InodeSet (aio_vid (aiocb req)) (data_oid_to_idx (oid req)) (aio_vid (aiocb req)),
                Unlock (vdi_lock (aio_vid (aiocb req))),
                Submit (inode_write H req c)]
       @ map Submit (filter (\<lambda>r. oid r = oid req) (blocking_list c))
       @ End req # (if nr_requests c (aio_id (aiocb req)) \<le> 0
                    then [Done (aio_id (aiocb req))] else [])"
  "nr_requests (vdi_create_respond H req c) = (nr_requests c)(aio_id (aiocb req) := nr_requests c (aio_id (aiocb req)))"
  "inflight_list (vdi_create_respond H req c) =
     inflight_list c @ inode_write H req c # filter (\<lambda>r. oid r = oid req) (blocking_list c)"
  "blocking_list (vdi_create_respond H req c) = filter (\<lambda>r. oid r \<noteq> oid req) (blocking_list c)"
  "c_seq_num (vdi_create_respond H req c) = c_seq_num c + 1"
  "data_vdi_id (vdi_create_respond H req c) =
     (data_vdi_id c)(aio_vid (aiocb req) :=
        (data_vdi_id c (aio_vid (aiocb req)))(data_oid_to_idx (oid req) := aio_vid (aiocb req)))"
  by (simp_all add: vdi_create_respond_def Let_def inode_write_def vid_to_vdi_oid_def
      end_simps submit_blocking_simps submit_simps emit_simps)

lemma dones_Nil: "dones a [] = 0"
  by (simp add: dones_def)

lemma dones_Cons: "dones a (e # es) = (if e = Done a then 1 else 0) + dones a es"
  by (simp add: dones_def)

lemma live_remove1:
  assumes "r \<in> set (inflight_list c)"
  shows "live a (c\<lparr>inflight_list := remove1 r (inflight_list c)\<rparr>)
           = live a c - (if aio_id (aiocb r) = a then 1 else 0)"
    and "aio_id (aiocb r) = a \<Longrightarrow> 0 < live a c"
proof -
  let ?P = "\<lambda>r. aio_id (aiocb r) = a"
  have 1: "length (filter ?P (remove1 r (inflight_list c)))
             = length (filter ?P (inflight_list c)) - (if ?P r then 1 else 0)"
    using length_filter_remove1[OF assms] .
  have 2: "?P r \<Longrightarrow> 1 \<le> length (filter ?P (inflight_list c))"
    using filter_pos[OF assms, of ?P] by (simp add: Suc_le_eq del: length_greater_0_conv)
  show "live a (c\<lparr>inflight_list := remove1 r (inflight_list c)\<rparr>)
           = live a c - (if aio_id (aiocb r) = a then 1 else 0)"
    unfolding live_def using 1 2 by (cases "?P r") simp_all
  show "aio_id (aiocb r) = a \<Longrightarrow> 0 < live a c"
    using filter_pos[OF assms, of "\<lambda>r. aio_id (aiocb r) = a"] by (simp add: live_def)
qed

lemma live_vcr:
  "live a (vdi_create_respond H req c) = live a c + (if aio_id (aiocb req) = a then 1 else 0)"
proof -
  have "length (filter (\<lambda>r. aio_id (aiocb r) = a) (filter (\<lambda>r. oid r = oid req) (blocking_list c)))
        + length (filter (\<lambda>r. aio_id (aiocb r) = a) (filter (\<lambda>r. oid r \<noteq> oid req) (blocking_list c)))
        = length (filter (\<lambda>r. aio_id (aiocb r) = a) (blocking_list c))"
    using length_filter_split[of "\<lambda>r. aio_id (aiocb r) = a" "\<lambda>r. oid r = oid req" "blocking_list c"]
    by simp
  then show ?thesis
    by (simp add: live_def vcr_simps inode_write_def)
qed

lemma holding_balanced: "holding a d c = balanced 1 a d c"
  by (simp add: holding_def balanced_def)

lemma accounted_balanced: "accounted a d c = balanced 0 a d c"
  by (simp add: accounted_def balanced_def)

lemma end_balanced:
  assumes "balanced e a d c" "r \<in> set (inflight_list c)"
  shows "balanced e a d
           (end_sheep_request r (c\<lparr>inflight_list := remove1 r (inflight_list c)\<rparr>))"
proof (cases "aio_id (aiocb r) = a")
  case True
  have pos: "0 < live a c" using live_remove1(2)[OF assms(2) True] .
  have lv: "live a (c\<lparr>inflight_list := remove1 r (inflight_list c)\<rparr>) = live a c - 1"
    using live_remove1(1)[OF assms(2), of a] True by simp
  have nr: "nr_requests c a = int e + int (live a c)" and dn: "dones a (trace c) = d"
    using assms(1) pos by (simp_all add: balanced_def)
  show ?thesis
    unfolding balanced_def
    using True pos lv nr dn
    by (auto simp: end_simps live_simps dones_append dones_Cons dones_Nil)
next
  case False
  have lv: "live a (c\<lparr>inflight_list := remove1 r (inflight_list c)\<rparr>) = live a c"
    using live_remove1(1)[OF assms(2), of a] False by simp
  show ?thesis
    unfolding balanced_def
    using False lv assms(1)
    by (auto simp: balanced_def end_simps live_simps dones_append dones_Cons dones_Nil)
qed

lemma vcr_balanced:
  assumes "balanced e a d c" "r \<in> set (inflight_list c)"
  shows "balanced e a d
           (vdi_create_respond H r (c\<lparr>inflight_list := remove1 r (inflight_list c)\<rparr>))"
proof (cases "aio_id (aiocb r) = a")
  case True
  have pos: "0 < live a c" using live_remove1(2)[OF assms(2) True] .
  have lv: "live a (c\<lparr>inflight_list := remove1 r (inflight_list c)\<rparr>) = live a c - 1"
    using live_remove1(1)[OF assms(2), of a] True by simp
  have nr: "nr_requests c a = int e + int (live a c)" and dn: "dones a (trace c) = d"
    using assms(1) pos by (simp_all add: balanced_def)
  show ?thesis
    unfolding balanced_def
    using True pos lv nr dn
    by (simp add: live_vcr vcr_simps dones_append dones_map_Submit dones_Cons dones_Nil)
next
  case False
  have lv: "live a (c\<lparr>inflight_list := remove1 r (inflight_list c)\<rparr>) = live a c"
    using live_remove1(1)[OF assms(2), of a] False by simp
  show ?thesis
    unfolding balanced_def
    using False lv assms(1)
    by (simp add: balanced_def live_vcr vcr_simps dones_append dones_map_Submit dones_Cons
        dones_Nil)
qed

text \<open>A reply keeps the account of every aiocb, whether the engine holds a reference or not.\<close>

lemma handle_reply_balanced:
  assumes "balanced e a d c" "r \<in> set (inflight_list c)"
  shows "balanced e a d (handle_reply H r c)"
  unfolding handle_reply_def respond_process_def
  using end_balanced[OF assms] vcr_balanced[OF assms]
  by (simp split: vdi_opcode.splits)

lemma handle_replies_accounted:
  "accounted a d c \<Longrightarrow> accounted a d (handle_replies H js c)"
proof (induction js arbitrary: c)
  case Nil
  then show ?case by simp
next
  case (Cons j js)
  show ?case
  proof (cases "j < length (inflight_list c)")
    case True
    then have "inflight_list c ! j \<in> set (inflight_list c)" by simp
    then have "accounted a d (handle_reply H (inflight_list c ! j) c)"
      using Cons.prems handle_reply_balanced[of 0 a d c] by (simp add: accounted_balanced)
    then show ?thesis using True Cons.IH by simp
  next
    case False
    then show ?thesis using Cons by simp
  qed
qed

text \<open>
  While the engine holds its reference, rounds and replies in any order keep the counter
  above the number of live sub-requests and call the callback of the aiocb not once.
\<close>

lemma run_steps_holding:
  "holding (aio_id A) d c \<Longrightarrow> holding (aio_id A) d (run_steps H A ss c)"
proof (induction ss arbitrary: c)
  case Nil
  then show ?case by simp
next
  case (Cons s ss)
  show ?case
  proof (cases s)
    case (Round ch)
    obtain i l st where ch: "ch = (i, l, st)" by (cases ch)
    show ?thesis unfolding Round ch using Cons.IH[OF body_holding[OF Cons.prems]] by simp
  next
    case (Reply j)
    show ?thesis
    proof (cases "j < length (inflight_list c)")
      case True
      then have "inflight_list c ! j \<in> set (inflight_list c)" by simp
      then have "holding (aio_id A) d (handle_reply H (inflight_list c ! j) c)"
        using Cons.prems handle_reply_balanced[of 1 "aio_id A" d c]
        by (simp add: holding_balanced)
      then show ?thesis unfolding Reply using True Cons.IH by simp
    next
      case False
      then show ?thesis unfolding Reply using Cons by simp
    qed
  qed
qed

lemma run_steps_rounds:
  "run_steps H A (map Round chs) c = fold (\<lambda>(i, l, st). vdi_rw_body A i l st) chs c"
proof (induction chs arbitrary: c)
  case Nil
  then show ?case by simp
next
  case (Cons ch chs)
  obtain i l st where ch: "ch = (i, l, st)" by (cases ch)
  show ?case unfolding ch using Cons.IH by simp
qed

text \<open>Dropping the reference settles the account.\<close>

lemma drop_reference_accounted:
  assumes "holding (aio_id a) d c"
  shows "accounted (aio_id a) d (drop_reference a c)"
    and "new_events c (drop_reference a c)
           = (if live (aio_id a) (drop_reference a c) = 0 then [Done (aio_id a)] else [])"
proof -
  have n: "nr_requests c (aio_id a) - 1 = int (live (aio_id a) c)"
    and dn: "dones (aio_id a) (trace c) = d"
    using assms by (simp_all add: holding_def)
  have lv: "live (aio_id a) (c\<lparr>nr_requests := x\<rparr>) = live (aio_id a) c" for x
    by (simp add: live_def)
  show "accounted (aio_id a) d (drop_reference a c)"
    unfolding drop_reference_def Let_def n accounted_def using dn
    by (simp add: live_simps emit_simps dones_append dones_Cons dones_Nil lv)
  show "new_events c (drop_reference a c)
           = (if live (aio_id a) (drop_reference a c) = 0 then [Done (aio_id a)] else [])"
    unfolding drop_reference_def Let_def n
    by (simp add: new_events_def live_simps emit_simps lv)
qed

lemma vdi_rw_request_steps:
  assumes "0 < S"
  shows "vdi_rw_request S a c =
     Some (drop_reference a
       (run_steps H a (map Round (request_chunks S (aio_offset a) (aio_length a)))
          (take_reference a c)))"
  unfolding vdi_rw_request_eq[OF assms] run_steps_rounds drop_reference_def take_reference_def
  by (simp add: Let_def)

lemma new_events_append: "trace c' = trace c @ es \<Longrightarrow> new_events c c' = es"
  by (simp add: new_events_def)

lemma vdi_rw_request_result:
  assumes "0 < S"
  obtains c2 es where
    "c2 = fold (\<lambda>(i, l, st). vdi_rw_body a i l st)
            (request_chunks S (aio_offset a) (aio_length a))
            (c\<lparr>nr_requests := (nr_requests c)(aio_id a := nr_requests c (aio_id a) + 1)\<rparr>)"
    "trace c2 = trace c @ es"
    "vdi_rw_request S a c =
       Some (if nr_requests c2 (aio_id a) - 1 \<le> 0
             then emit [Done (aio_id a)]
                    (c2\<lparr>nr_requests := (nr_requests c2)(aio_id a := nr_requests c2 (aio_id a) - 1)\<rparr>)
             else c2\<lparr>nr_requests := (nr_requests c2)(aio_id a := nr_requests c2 (aio_id a) - 1)\<rparr>)"
    "map (\<lambda>r. (data_oid_to_idx (oid r), rlength r, offset r)) (allocs es)
       = request_chunks S (aio_offset a) (aio_length a)"
proof -
  let ?c1 = "c\<lparr>nr_requests := (nr_requests c)(aio_id a := nr_requests c (aio_id a) + 1)\<rparr>"
  let ?c2 = "fold (\<lambda>(i, l, st). vdi_rw_body a i l st)
            (request_chunks S (aio_offset a) (aio_length a)) ?c1"
  obtain es where es: "trace ?c2 = trace ?c1 @ es" using fold_body_prefix by blast
  have "map (\<lambda>r. (data_oid_to_idx (oid r), rlength r, offset r)) (allocs (trace ?c2))
      = map (\<lambda>r. (data_oid_to_idx (oid r), rlength r, offset r)) (allocs (trace ?c1))
        @ request_chunks S (aio_offset a) (aio_length a)"
    by (rule fold_body_allocs)
  then have al: "map (\<lambda>r. (data_oid_to_idx (oid r), rlength r, offset r)) (allocs es)
      = request_chunks S (aio_offset a) (aio_length a)"
    unfolding es by (simp add: allocs_append)
  show ?thesis
    by (rule that[of ?c2 es]) (simp_all add: es al vdi_rw_request_eq[OF assms] Let_def)
qed


subsection \<open>Termination of the splitting loop\<close>


lemma chunks_ok_lens:
  "chunks_ok S p n chs \<Longrightarrow>
      sum_list (map (\<lambda>(i, l, s). l) chs) = n
      \<and> (0 < n \<longrightarrow> list_all (\<lambda>(i, l, s). 0 < l) chs)
      \<and> (n = 0 \<longrightarrow> map (\<lambda>(i, l, s). l) chs = [0])"
proof (induction S p n chs rule: chunks_ok.induct)
  case (1 S pos tot)
  then show ?case by simp
next
  case (2 S pos tot i l s cs)
  have all: "i = word_of_nat (pos div S) \<and> s = pos mod S \<and> l = min tot (S - s)
      \<and> (0 < tot \<longrightarrow> 0 < l)
      \<and> (if tot - l = 0 then cs = [] else chunks_ok S (pos + l) (tot - l) cs)"
    using 2(2) unfolding chunks_ok.simps .
  have l: "l = min tot (S - s)" and lp: "0 < tot \<longrightarrow> 0 < l"
    and rest: "if tot - l = 0 then cs = [] else chunks_ok S (pos + l) (tot - l) cs"
    using all by blast+
  have le: "l \<le> tot" using l by simp
  show ?case
  proof (cases "tot - l = 0")
    case True
    then have "cs = []" using rest by simp
    then show ?thesis using True le lp by auto
  next
    case False
    then have r: "chunks_ok S (pos + l) (tot - l) cs" using rest by simp
    from 2(1)[OF False r] have
      ih1: "sum_list (map (\<lambda>(i, l, s). l) cs) = tot - l" and
      ih2: "list_all (\<lambda>(i, l, s). 0 < l) cs"
      using False by simp_all
    show ?thesis using ih1 ih2 le lp False by auto
  qed
qed

text \<open>
  C10. With a positive object size \<open>S\<close> (one that an \<^verbatim>\<open>int\<close> holds), the loop of
  \<open>vdi_rw_request\<close> ends for every offset and length: the function returns. Its rounds,
  read off the sub-requests it allocates (index, length, offset within the object), are
  \<open>request_chunks\<close>, and they satisfy \<open>chunks_ok\<close>: every round takes
  \<open>min (remaining, S - start)\<close> bytes, which is positive while the remaining length is
  positive, and the rounds stop when nothing remains. Their number is the closed
  expression given, so it is finite; the lengths add up to the length of the request. For
  a request of length 0 there is exactly one round, with a sub-request of length 0.
\<close>

theorem C10_splitting_loop_terminates:
  assumes "0 < S" "S < 2 ^ 31"
  shows "\<exists>c'. vdi_rw_request S a c = Some c'
     \<and> map (\<lambda>r. (data_oid_to_idx (oid r), rlength r, offset r)) (allocs (new_events c c'))
         = request_chunks S (aio_offset a) (aio_length a)
     \<and> chunks_ok S (aio_offset a) (aio_length a)
         (request_chunks S (aio_offset a) (aio_length a))
     \<and> length (request_chunks S (aio_offset a) (aio_length a))
         = (if aio_length a = 0 then 1 else (aio_offset a mod S + aio_length a - 1) div S + 1)
     \<and> (if aio_length a = 0
         then map (\<lambda>r. rlength r) (allocs (new_events c c')) = [0]
         else list_all (\<lambda>r. 0 < rlength r) (allocs (new_events c c')))
     \<and> sum_list (map rlength (allocs (new_events c c'))) = aio_length a"
proof -
  obtain c2 es where
    c2: "trace c2 = trace c @ es" and
    res: "vdi_rw_request S a c =
       Some (if nr_requests c2 (aio_id a) - 1 \<le> 0
             then emit [Done (aio_id a)]
                    (c2\<lparr>nr_requests := (nr_requests c2)(aio_id a := nr_requests c2 (aio_id a) - 1)\<rparr>)
             else c2\<lparr>nr_requests := (nr_requests c2)(aio_id a := nr_requests c2 (aio_id a) - 1)\<rparr>)" and
    al: "map (\<lambda>r. (data_oid_to_idx (oid r), rlength r, offset r)) (allocs es)
       = request_chunks S (aio_offset a) (aio_length a)"
    using vdi_rw_request_result[OF assms(1), of a c] by blast
  let ?c' = "if nr_requests c2 (aio_id a) - 1 \<le> 0
             then emit [Done (aio_id a)]
                    (c2\<lparr>nr_requests := (nr_requests c2)(aio_id a := nr_requests c2 (aio_id a) - 1)\<rparr>)
             else c2\<lparr>nr_requests := (nr_requests c2)(aio_id a := nr_requests c2 (aio_id a) - 1)\<rparr>"
  let ?chs = "request_chunks S (aio_offset a) (aio_length a)"
  have ne: "allocs (new_events c ?c') = allocs es"
    using c2 by (simp add: new_events_def emit_simps allocs_append)
  have ok: "chunks_ok S (aio_offset a) (aio_length a) ?chs"
    using request_chunks_ok[OF assms(1)] .
  have lens: "map rlength (allocs es) = map (\<lambda>(i, l, s). l) ?chs"
    unfolding al[symmetric] by (simp add: comp_def)
  have len: "length ?chs = (if aio_length a = 0 then 1 else (aio_offset a mod S + aio_length a - 1) div S + 1)"
    using request_chunks_length[OF assms(1)] .
  have z: "aio_length a = 0 \<Longrightarrow> map rlength (allocs es) = [0]"
  proof -
    assume n0: "aio_length a = 0"
    show ?thesis using chunks_ok_lens[OF ok] n0 unfolding lens by simp
  qed
  have p: "0 < aio_length a \<Longrightarrow> list_all (\<lambda>r. 0 < rlength r) (allocs es)"
  proof -
    assume "0 < aio_length a"
    then have "list_all (\<lambda>l. 0 < l) (map rlength (allocs es))"
      using chunks_ok_lens[OF ok] unfolding lens by (simp add: list_all_iff split_beta)
    then show ?thesis by (simp add: list_all_iff)
  qed
  have s: "sum_list (map rlength (allocs es)) = aio_length a"
    using chunks_ok_lens[OF ok] unfolding lens by simp
  show ?thesis
    apply (rule exI[of _ ?c'])
    unfolding ne
    using res al ok len z p s by auto
qed


lemma ex_chunks:
  "request_chunks 4194304 4194300 10 = [(0, 4, 4194300), (1, 6, 0)]"
  "request_chunks 4194304 4194300 0 = [(0, 0, 4194300)]"
  by (simp_all add: request_chunks_def rw_chunks.simps)

theorem C10_splitting_loop_terminates_witness:
  "(\<exists>c'. vdi_rw_request 4194304 (ex_aiocb 1 VDI_READ 4194300 10) ex_cluster = Some c'
      \<and> map (\<lambda>r. (data_oid_to_idx (oid r), rlength r, offset r))
            (allocs (new_events ex_cluster c')) = [(0, 4, 4194300), (1, 6, 0)])
   \<and> (\<exists>c'. vdi_rw_request 4194304 (ex_aiocb 1 VDI_READ 4194300 0) ex_cluster = Some c'
      \<and> map (\<lambda>r. (data_oid_to_idx (oid r), rlength r, offset r))
            (allocs (new_events ex_cluster c')) = [(0, 0, 4194300)])"
proof -
  have S: "(0::nat) < 4194304" "(4194304::nat) < 2 ^ 31" by simp_all
  from C10_splitting_loop_terminates[OF S, of "ex_aiocb 1 VDI_READ 4194300 10" ex_cluster]
  have 1: "\<exists>c'. vdi_rw_request 4194304 (ex_aiocb 1 VDI_READ 4194300 10) ex_cluster = Some c'
      \<and> map (\<lambda>r. (data_oid_to_idx (oid r), rlength r, offset r))
            (allocs (new_events ex_cluster c')) = [(0, 4, 4194300), (1, 6, 0)]"
    by (auto simp: ex_aiocb_def ex_chunks)
  from C10_splitting_loop_terminates[OF S, of "ex_aiocb 1 VDI_READ 4194300 0" ex_cluster]
  have 2: "\<exists>c'. vdi_rw_request 4194304 (ex_aiocb 1 VDI_READ 4194300 0) ex_cluster = Some c'
      \<and> map (\<lambda>r. (data_oid_to_idx (oid r), rlength r, offset r))
            (allocs (new_events ex_cluster c')) = [(0, 0, 4194300)]"
    by (auto simp: ex_aiocb_def ex_chunks)
  from 1 2 show ?thesis by blast
qed

subsection \<open>Completion of a create\<close>

text \<open>
  C5. \<open>vdi_create_respond\<close> for a create \<open>req\<close> of a VDI \<open>vid\<close> at index \<open>idx\<close> does,
  in this order and nothing else: take the VDI's lock for writing, set the inode's entry
  for \<open>idx\<close> to \<open>vid\<close>, release the lock; submit a write to the inode object of
  \<open>vid\<close>, of 4 bytes at offset \<open>H + 4 * idx\<close> (the slot just updated); submit every
  sub-request of the blocking list that waits on the object of \<open>req\<close>, in the order
  they stand in the list, and take them off the list; end \<open>req\<close>. The blocking list
  is appended to at its tail, so the order is first in, first out.
\<close>

theorem C5_create_respond:
  "new_events c (vdi_create_respond H req c) =
     [WLock (vdi_lock (aio_vid (aiocb req))),
      InodeSet (aio_vid (aiocb req)) (data_oid_to_idx (oid req)) (aio_vid (aiocb req)),
      Unlock (vdi_lock (aio_vid (aiocb req))),
      Submit (inode_write H req c)]
     @ map Submit (filter (\<lambda>r. oid r = oid req) (blocking_list c))
     @ End req # (if nr_requests c (aio_id (aiocb req)) \<le> 0
                  then [Done (aio_id (aiocb req))] else [])
   \<and> oid (inode_write H req c) = vid_to_vdi_oid (aio_vid (aiocb req))
   \<and> offset (inode_write H req c) = H + 4 * unat (data_oid_to_idx (oid req))
   \<and> rlength (inode_write H req c) = 4
   \<and> opcode (inode_write H req c) = VDI_WRITE
   \<and> cow_oid (inode_write H req c) = None
   \<and> data_vdi_id (vdi_create_respond H req c) (aio_vid (aiocb req)) (data_oid_to_idx (oid req))
       = aio_vid (aiocb req)
   \<and> blocking_list (vdi_create_respond H req c)
       = filter (\<lambda>r. oid r \<noteq> oid req) (blocking_list c)
   \<and> inflight_list (vdi_create_respond H req c)
       = inflight_list c @ inode_write H req c
           # filter (\<lambda>r. oid r = oid req) (blocking_list c)"
  by (simp add: new_events_def vcr_simps inode_write_def vid_to_vdi_oid_def)


subsection \<open>Reads\<close>








subsection \<open>Copy-on-write\<close>








subsection \<open>Sub-requests and the completion callback\<close>

lemma handle_reply_allocs: "allocs (trace (handle_reply H r c)) = allocs (trace c)"
  by (simp add: handle_reply_def respond_process_def end_simps vcr_simps allocs_append
      allocs_map_Submit split: vdi_opcode.splits)

lemma run_steps_allocs:
  "map (\<lambda>r. (data_oid_to_idx (oid r), rlength r, offset r)) (allocs (trace (run_steps H A ss c)))
   = map (\<lambda>r. (data_oid_to_idx (oid r), rlength r, offset r)) (allocs (trace c)) @ rounds_of ss"
proof (induction ss arbitrary: c)
  case Nil
  then show ?case by simp
next
  case (Cons s ss)
  show ?case
  proof (cases s)
    case (Round ch)
    obtain i l st where ch: "ch = (i, l, st)" by (cases ch)
    have "(\<lambda>r. (data_oid_to_idx (oid r), rlength r, offset r)) (round_req A i l st c) = (i, l, st)"
      by (simp add: round_req_def Let_def)
    then show ?thesis unfolding Round ch by (simp add: Cons.IH body_allocs)
  next
    case (Reply j)
    show ?thesis unfolding Reply by (simp add: Cons.IH handle_reply_allocs)
  qed
qed

lemma request_chunks_card:
  assumes "0 < S"
  shows "length (request_chunks S off n)
           = (if n = 0 then 1 else card (objects_spanned S off n))"
  using request_chunks_length[OF assms, of off n] card_objects_spanned[OF assms, of n off]
  by simp

text \<open>
  C1, as stated, at a request of length 0: it spans no data object, and one sub-request
  (of length 0) is allocated for it.
\<close>

theorem C1_zero_length_request:
  "map_option (length \<circ> allocs \<circ> trace)
       (vdi_rw_request 4194304 (ex_aiocb 1 VDI_READ 8388608 0) ex_cluster) = Some 1
   \<and> trace ex_cluster = []
   \<and> aio_length (ex_aiocb 1 VDI_READ 8388608 0) = 0
   \<and> card (objects_spanned 4194304 8388608 0) = 0"
proof -
  have ch: "request_chunks 4194304 8388608 0 = [(2, 0, 0)]"
    by (simp add: request_chunks_def rw_chunks.simps)
  have S: "(0::nat) < 4194304" by simp
  have tr: "trace ex_cluster = []" by (simp add: ex_cluster_def)
  have "map_option (length \<circ> allocs \<circ> trace)
       (vdi_rw_request 4194304 (ex_aiocb 1 VDI_READ 8388608 0) ex_cluster) = Some 1"
    unfolding vdi_rw_request_eq[OF S]
    by (simp add: ex_aiocb_def ch Let_def emit_simps allocs_append body_allocs tr)
  then show ?thesis
    using tr by (simp add: objects_spanned_0 ex_aiocb_def)
qed

text \<open>
  C1, amended. For an aiocb that is fresh (counter 0, no live sub-request) and an object
  size that is positive and that an \<^verbatim>\<open>int\<close> holds:
  \<^item> \<open>vdi_rw_request\<close> returns; it allocates one sub-request for each data object the
    byte range spans when the length is positive, and one sub-request of length 0 when
    the length is 0;
  \<^item> none of the events of the loop is a call of the aiocb's callback; the callback is
    called, as the last event of the function, exactly if no sub-request is live when
    the engine drops its reference;
  \<^item> afterwards, and after any sequence of replies, the counter is the number of live
    sub-requests and the callback has been called once exactly if that number is 0, and
    not at all otherwise: it is called at most once, and once when all sub-requests
    have completed;
  \<^item> the same holds when replies arrive between the rounds of the loop: from the
    taking of the extra reference on, and whatever rounds and replies follow, the
    counter is at least 1 and the callback is not called, and dropping the reference
    then settles the account as above; the sub-requests allocated are those of the
    rounds.
\<close>

theorem C1_subrequests_and_completion:
  assumes "0 < S" "S < 2 ^ 31" "nr_requests c (aio_id a) = 0" "live (aio_id a) c = 0"
  shows
    "(\<exists>c' es. vdi_rw_request S a c = Some c'
        \<and> new_events c c' = es @ (if live (aio_id a) c' = 0 then [Done (aio_id a)] else [])
        \<and> dones (aio_id a) es = 0
        \<and> length (allocs es)
            = (if aio_length a = 0 then 1
               else card (objects_spanned S (aio_offset a) (aio_length a)))
        \<and> accounted (aio_id a) (dones (aio_id a) (trace c)) c'
        \<and> (\<forall>js. accounted (aio_id a) (dones (aio_id a) (trace c)) (handle_replies H js c')))
     \<and> vdi_rw_request S a c =
         Some (drop_reference a
           (run_steps H a (map Round (request_chunks S (aio_offset a) (aio_length a)))
              (take_reference a c)))
     \<and> (\<forall>ss. 1 \<le> nr_requests (run_steps H a ss (take_reference a c)) (aio_id a)
          \<and> dones (aio_id a) (trace (run_steps H a ss (take_reference a c)))
              = dones (aio_id a) (trace c)
          \<and> map (\<lambda>r. (data_oid_to_idx (oid r), rlength r, offset r))
                (allocs (trace (run_steps H a ss (take_reference a c))))
              = map (\<lambda>r. (data_oid_to_idx (oid r), rlength r, offset r)) (allocs (trace c))
                @ rounds_of ss
          \<and> (\<forall>js. accounted (aio_id a) (dones (aio_id a) (trace c))
                 (handle_replies H js
                    (drop_reference a (run_steps H a ss (take_reference a c))))))"
proof -
  let ?d = "dones (aio_id a) (trace c)"
  let ?c1 = "take_reference a c"
  let ?chs = "request_chunks S (aio_offset a) (aio_length a)"
  have h1: "holding (aio_id a) ?d ?c1"
    using assms(3,4) by (simp add: holding_def take_reference_def live_def)
  have hs: "holding (aio_id a) ?d (run_steps H a ss ?c1)" for ss
    using h1 by (rule run_steps_holding)
  have acc: "accounted (aio_id a) ?d (handle_replies H js (drop_reference a (run_steps H a ss ?c1)))"
    for ss js
    using drop_reference_accounted(1)[OF hs] by (rule handle_replies_accounted)
  have steps: "vdi_rw_request S a c = Some (drop_reference a (run_steps H a (map Round ?chs) ?c1))"
    using vdi_rw_request_steps[OF assms(1)] .
  let ?c2 = "run_steps H a (map Round ?chs) ?c1"
  let ?c' = "drop_reference a ?c2"
  have c2f: "?c2 = fold (\<lambda>(i, l, st). vdi_rw_body a i l st) ?chs ?c1"
    by (rule run_steps_rounds)
  obtain es where es: "trace ?c2 = trace ?c1 @ es"
    unfolding c2f using fold_body_prefix by blast
  have tc1: "trace ?c1 = trace c" by (simp add: take_reference_def)
  have ne2: "new_events ?c2 ?c' = (if live (aio_id a) ?c' = 0 then [Done (aio_id a)] else [])"
    using drop_reference_accounted(2)[OF hs] .
  have pre2: "trace ?c' = trace ?c2 @ new_events ?c2 ?c'"
    by (simp add: drop_reference_def Let_def new_events_def emit_simps)
  have ne: "new_events c ?c' = es @ (if live (aio_id a) ?c' = 0 then [Done (aio_id a)] else [])"
    using pre2 es tc1 ne2 by (simp add: new_events_def)
  have d0: "dones (aio_id a) es = 0"
    using hs[of "map Round ?chs"] es tc1 by (simp add: holding_def dones_append)
  have "map (\<lambda>r. (data_oid_to_idx (oid r), rlength r, offset r)) (allocs (trace ?c2))
      = map (\<lambda>r. (data_oid_to_idx (oid r), rlength r, offset r)) (allocs (trace ?c1)) @ ?chs"
    unfolding c2f by (rule fold_body_allocs)
  then have "map (\<lambda>r. (data_oid_to_idx (oid r), rlength r, offset r)) (allocs es) = ?chs"
    unfolding es by (simp add: allocs_append)
  then have "length (allocs es) = length ?chs"
    by (metis length_map)
  then have la: "length (allocs es)
            = (if aio_length a = 0 then 1
               else card (objects_spanned S (aio_offset a) (aio_length a)))"
    using request_chunks_card[OF assms(1)] by simp
  have first: "\<exists>c' es. vdi_rw_request S a c = Some c'
        \<and> new_events c c' = es @ (if live (aio_id a) c' = 0 then [Done (aio_id a)] else [])
        \<and> dones (aio_id a) es = 0
        \<and> length (allocs es)
            = (if aio_length a = 0 then 1
               else card (objects_spanned S (aio_offset a) (aio_length a)))
        \<and> accounted (aio_id a) ?d c'
        \<and> (\<forall>js. accounted (aio_id a) ?d (handle_replies H js c'))"
    apply (rule exI[of _ ?c'], rule exI[of _ es])
    using steps ne d0 la acc[of "[]" "map Round ?chs"] acc[of _ "map Round ?chs"]
    by simp
  have third: "1 \<le> nr_requests (run_steps H a ss ?c1) (aio_id a)
          \<and> dones (aio_id a) (trace (run_steps H a ss ?c1)) = ?d
          \<and> map (\<lambda>r. (data_oid_to_idx (oid r), rlength r, offset r))
                (allocs (trace (run_steps H a ss ?c1)))
              = map (\<lambda>r. (data_oid_to_idx (oid r), rlength r, offset r)) (allocs (trace c))
                @ rounds_of ss
          \<and> (\<forall>js. accounted (aio_id a) ?d
                 (handle_replies H js (drop_reference a (run_steps H a ss ?c1))))" for ss
    using hs[of ss] acc[of _ ss] run_steps_allocs[of H a ss ?c1] tc1
    by (simp add: holding_def)
  from first steps third show ?thesis by blast
qed

theorem C1_subrequests_and_completion_witness:
  "\<exists>c' es. vdi_rw_request 4194304 (ex_aiocb 10 VDI_WRITE 4194300 10) ex_cluster = Some c'
      \<and> new_events ex_cluster c' = es @ (if live 10 c' = 0 then [Done 10] else [])
      \<and> dones 10 es = 0 \<and> length (allocs es) = 2
      \<and> accounted 10 0 (handle_replies 4616 [0, 0, 0] c')"
proof -
  let ?a = "ex_aiocb 10 VDI_WRITE 4194300 10"
  have S: "(0::nat) < 4194304" "(4194304::nat) < 2 ^ 31" by simp_all
  have fresh: "nr_requests ex_cluster (aio_id ?a) = 0" "live (aio_id ?a) ex_cluster = 0"
    by (simp_all add: ex_cluster_def live_def)
  have sp: "card (objects_spanned 4194304 4194300 10) = 2"
    using card_objects_spanned[of 4194304 10 4194300] by simp
  have d: "dones 10 (trace ex_cluster) = 0" by (simp add: ex_cluster_def dones_def)
  have a: "aio_id ?a = 10" "aio_length ?a = 10" "aio_offset ?a = 4194300"
    by (simp_all add: ex_aiocb_def)
  show ?thesis
    using C1_subrequests_and_completion[OF S fresh, of 4616, THEN conjunct1]
    unfolding a sp d by fastforce
qed


end
